theory Spec2Isabelle
  imports Complex_Main "HOL-Library.Sublist"
begin

section \<open>Python values and string operations used by the source\<close>

text \<open>
  The exceptions the modelled code can raise. \<open>ValueError\<close> is also what the host
  raises for a query on a node that does not exist (``No object matches name'');
  \<open>RuntimeError\<close> is what \<^verbatim>\<open>cmds.error\<close> raises. \<open>Unsupported\<close> marks a format
  string outside the fragment of \<^verbatim>\<open>str.format\<close> modelled below.
\<close>

datatype error =
    UnboundLocalError | TypeError | KeyError | IndexError | ValueError | RuntimeError
  | Unsupported

text \<open>\<^verbatim>\<open>s.split(c)\<close>: never empty; \<^verbatim>\<open>[0]\<close> is \<open>hd\<close>, \<^verbatim>\<open>[-1]\<close> is \<open>last\<close>.\<close>

fun split_on :: "char \<Rightarrow> string \<Rightarrow> string list" where
  "split_on c [] = [[]]"
| "split_on c (x # xs) =
     (if x = c then [] # split_on c xs
      else (case split_on c xs of [] \<Rightarrow> [[x]] | w # ws \<Rightarrow> (x # w) # ws))"

definition first_token :: "string \<Rightarrow> string" where
  "first_token s = hd (split_on (CHR ''_'') s)"

definition last_token :: "string \<Rightarrow> string" where
  "last_token s = last (split_on (CHR ''_'') s)"

text \<open>\<^verbatim>\<open>sub in s\<close> on strings.\<close>

fun contains :: "string \<Rightarrow> string \<Rightarrow> bool" where
  "contains sub [] = (sub = [])"
| "contains sub (c # cs) = (prefix sub (c # cs) \<or> contains sub cs)"

text \<open>Python truthiness of a string, and of an optional string (\<^verbatim>\<open>None\<close> is falsy).\<close>

definition truthy :: "string option \<Rightarrow> bool" where
  "truthy v = (case v of None \<Rightarrow> False | Some s \<Rightarrow> s \<noteq> [])"

text \<open>
  \<^verbatim>\<open>template.format(*args, **kwargs)\<close> for the replacement fields the source uses:
  \<^verbatim>\<open>{}\<close> (automatic numbering into \<open>args\<close>) and \<^verbatim>\<open>{name}\<close> (a keyword), with the
  escapes \<^verbatim>\<open>{{\<close> and \<^verbatim>\<open>}}\<close>. A field that is left open or a lone \<^verbatim>\<open>}\<close> is a
  \<open>ValueError\<close>, a missing positional argument an \<open>IndexError\<close>, a missing keyword a
  \<open>KeyError\<close>. Fields with an explicit index, a conversion, a format specification or
  an attribute or item access are outside the fragment: \<open>Unsupported\<close>.

  The third argument counts the automatic fields seen so far; the fourth is
  \<open>Some f\<close> while the characters \<open>f\<close> of an open field have been read.
\<close>

definition field_special :: "char \<Rightarrow> bool" where
  "field_special c = (c \<in> set ''{!:.[]0123456789'')"

definition emit :: "string \<Rightarrow> error + string \<Rightarrow> error + string" where
  "emit v r = (case r of Inl e \<Rightarrow> Inl e | Inr s \<Rightarrow> Inr (v @ s))"

fun fmt :: "string list \<Rightarrow> (string \<times> string) list \<Rightarrow> nat \<Rightarrow> string option \<Rightarrow> string
    \<Rightarrow> error + string" where
  "fmt A K n None [] = Inr []"
| "fmt A K n (Some f) [] = Inl ValueError"
| "fmt A K n None (c # cs) =
     (if c = CHR ''{'' then
        (case cs of
           [] \<Rightarrow> Inl ValueError
         | d # ds \<Rightarrow> if d = CHR ''{'' then emit [c] (fmt A K n None ds)
                    else fmt A K n (Some []) cs)
      else if c = CHR ''}'' then
        (case cs of
           [] \<Rightarrow> Inl ValueError
         | d # ds \<Rightarrow> if d = CHR ''}'' then emit [c] (fmt A K n None ds)
                    else Inl ValueError)
      else emit [c] (fmt A K n None cs))"
| "fmt A K n (Some f) (c # cs) =
     (if c = CHR ''}'' then
        (if f = [] then
           (if n < length A then emit (A ! n) (fmt A K (Suc n) None cs) else Inl IndexError)
         else
           (case map_of K f of
              None \<Rightarrow> Inl KeyError
            | Some v \<Rightarrow> emit v (fmt A K n None cs)))
      else if field_special c then Inl Unsupported
      else fmt A K n (Some (f @ [c])) cs)"

definition py_format :: "string list \<Rightarrow> (string \<times> string) list \<Rightarrow> string \<Rightarrow> error + string" where
  "py_format A K t = fmt A K 0 None t"

text \<open>\<^verbatim>\<open>xs[i]\<close> for a non-negative index.\<close>

definition item :: "'a list \<Rightarrow> nat \<Rightarrow> error + 'a" where
  "item xs i = (if i < length xs then Inr (xs ! i) else Inl IndexError)"

section \<open>Configuration tables\<close>

text \<open>
  The module \<^verbatim>\<open>lfdn_td.facial.config\<close> is not among the sources; its tables are
  parameters. An entry of \<^verbatim>\<open>DEFORMER_SUFFIX_ASSOCIATIONS\<close> is a dictionary with the keys
  \<^verbatim>\<open>"suffix"\<close> and \<^verbatim>\<open>"type"\<close>. A value of a deformer stack is \<^verbatim>\<open>None\<close> or a dictionary
  read at the keys \<^verbatim>\<open>"joints"\<close>, \<^verbatim>\<open>"use_hierarchy"\<close>, \<^verbatim>\<open>"envelope"\<close> and \<^verbatim>\<open>"source"\<close>; a
  field that is \<open>None\<close> here is a key the dictionary does not have. A stack is an
  ordered dictionary: an association list, in the order of its keys.
\<close>

record association =
  assoc_suffix :: string
  assoc_type :: string

record params =
  joints :: "string list option"
  use_hierarchy :: "bool option"
  envelope :: "real option"
  source :: "string option"

type_synonym stack = "(string \<times> params option) list"

record config =
  DEFORMER_SUFFIX_ASSOCIATIONS :: "association list"
  DEFORMERS_STACK :: "(string \<times> stack) list"
  GROUPS_HIERARCHY_tool :: string

section \<open>The host graph\<close>

text \<open>The calls into the host that change the scene or report, as the source issues them.\<close>

datatype cmd =
    Deformer_edit_geometry string string
  | Cluster "string list" string
  | Lattice "string list" string
  | BlendShape "string list" string
  | Wire string "string list" string
  | Create_wrap string string string
  | Create_proximity_wrap "string list" "string list" string
  | NonLinear string string string
  | Deformer_create "string list" string string
  | SkinCluster_add_influence string "string list"
  | SkinCluster_bind "string list" string nat bool string
  | SetAttr string real
  | ConnectAttr string string
  | Parent string string
  | Rename "string list" string
  | Log_info string

text \<open>
  Modelled from the spec: the host's scene graph and command layer (\<^verbatim>\<open>maya.cmds\<close>,
  \<^verbatim>\<open>autorig.deformers\<close>) are external; this is the in-memory graph behind the
  interface of the spec's section 6 (\<^verbatim>\<open>exists\<close>, \<^verbatim>\<open>deformer_history\<close>, \<^verbatim>\<open>list_children\<close>,
  \<^verbatim>\<open>create_deformer(kind, name, targets, parameters) -> name\<close>, \<^verbatim>\<open>add_influence\<close>,
  \<^verbatim>\<open>set_attribute\<close>, \<^verbatim>\<open>connect\<close>).
  \<^item> \<open>nodes\<close>: the nodes of the scene with their types, in creation order;
  \<^item> \<open>children\<close>, \<open>shapes\<close>: what \<^verbatim>\<open>listRelatives\<close> answers for a node that exists;
  \<^item> \<open>history\<close>: for a shape, the deformers that affect it as \<^verbatim>\<open>listHistory\<close> lists
    them, the one nearest to the shape (the most recently added) first;
  \<^item> \<open>selection\<close>: the current selection;
  \<^item> \<open>calls\<close>: the calls issued so far, oldest first.

  The graph keeps of a deformer the node with the deformer's name; the handles and
  other helper nodes the host makes along with it are not part of it, except the base
  object of a wrap, which \<^verbatim>\<open>create_deformer\<close> looks up. Full DAG paths are names.
\<close>

record scene =
  nodes :: "(string \<times> string) list"
  children :: "string \<Rightarrow> string list"
  shapes :: "string \<Rightarrow> string list"
  history :: "string \<Rightarrow> string list"
  selection :: "string list"
  calls :: "cmd list"

definition objExists :: "scene \<Rightarrow> string \<Rightarrow> bool" where
  "objExists sc n = (n \<in> fst ` set (nodes sc))"

text \<open>
  Modelled from the spec: \<^verbatim>\<open>listRelatives\<close> raises on a name that matches no node,
  and answers \<^verbatim>\<open>None\<close> (here the empty list, which the source treats alike) when
  there is nothing to list.
\<close>

definition listRelatives_children :: "scene \<Rightarrow> string \<Rightarrow> error + string list" where
  "listRelatives_children sc n = (if objExists sc n then Inr (children sc n) else Inl ValueError)"

definition listRelatives_shapes :: "scene \<Rightarrow> string \<Rightarrow> error + string list" where
  "listRelatives_shapes sc n = (if objExists sc n then Inr (shapes sc n) else Inl ValueError)"

text \<open>\<^verbatim>\<open>cmds.ls(name, type=typ)\<close> and \<^verbatim>\<open>cmds.ls(prefix + "*", type=typ)\<close>.\<close>

definition ls_type :: "scene \<Rightarrow> string \<Rightarrow> string \<Rightarrow> string list" where
  "ls_type sc n typ = (if (n, typ) \<in> set (nodes sc) then [n] else [])"

definition ls_prefix_type :: "scene \<Rightarrow> string \<Rightarrow> string \<Rightarrow> string list" where
  "ls_prefix_type sc p typ = map fst (filter (\<lambda>(n, t). prefix p n \<and> t = typ) (nodes sc))"

text \<open>
  Modelled from the spec: the effect of the mutating calls. A node is created under
  the name that was asked for. A deformer put on a mesh enters the history of each of
  the mesh's shapes in front (``each new deformer wraps the previous result''); one
  that is there already stays where it is. The graph accepts every mutating call.
\<close>

definition log_call :: "cmd \<Rightarrow> scene \<Rightarrow> scene" where
  "log_call c sc = sc\<lparr>calls := calls sc @ [c]\<rparr>"

definition add_node :: "string \<Rightarrow> string \<Rightarrow> scene \<Rightarrow> scene" where
  "add_node n typ sc = (if objExists sc n then sc else sc\<lparr>nodes := nodes sc @ [(n, typ)]\<rparr>)"

definition attach :: "string \<Rightarrow> string \<Rightarrow> scene \<Rightarrow> scene" where
  "attach d m sc =
     sc\<lparr>history := (\<lambda>s. if s \<in> set (shapes sc m) \<and> d \<notin> set (history sc s)
                         then d # history sc s else history sc s)\<rparr>"

definition create_node :: "string \<Rightarrow> string \<Rightarrow> string list \<Rightarrow> scene \<Rightarrow> scene" where
  "create_node typ n ms sc = fold (attach n) ms (add_node n typ sc)"

definition rename_node :: "string \<Rightarrow> string \<Rightarrow> scene \<Rightarrow> scene" where
  "rename_node old new sc =
     sc\<lparr>nodes := map (\<lambda>nt. (if fst nt = old then new else fst nt, snd nt)) (nodes sc),
        history := (\<lambda>s. map (\<lambda>d. if d = old then new else d) (history sc s))\<rparr>"

definition add_child :: "string \<Rightarrow> string \<Rightarrow> scene \<Rightarrow> scene" where
  "add_child c p sc = sc\<lparr>children := (children sc)(p := children sc p @ [c])\<rparr>"

fun apply_cmd :: "cmd \<Rightarrow> scene \<Rightarrow> scene" where
  "apply_cmd (Deformer_edit_geometry d m) sc = attach d m sc"
| "apply_cmd (Cluster ms n) sc = create_node ''cluster'' n ms sc"
| "apply_cmd (Lattice ms n) sc = create_node ''ffd'' n ms sc"
| "apply_cmd (BlendShape ms n) sc = create_node ''blendShape'' n (if ms = [] then [] else [last ms]) sc"
| "apply_cmd (Wire m ws n) sc = create_node ''wire'' n [m] sc"
| "apply_cmd (Create_wrap driver m n) sc =
     add_node (driver @ ''Base'') ''transform'' (create_node ''wrap'' n [m] sc)"
| "apply_cmd (Create_proximity_wrap drivers ms n) sc = create_node ''proximityWrap'' n ms sc"
| "apply_cmd (NonLinear m n typ) sc = create_node ''nonLinear'' n [m] sc"
| "apply_cmd (Deformer_create ms typ n) sc = create_node typ n ms sc"
| "apply_cmd (SkinCluster_add_influence n js) sc = sc"
| "apply_cmd (SkinCluster_bind js m method tsb n) sc = create_node ''skinCluster'' n [m] sc"
| "apply_cmd (SetAttr plug v) sc = sc"
| "apply_cmd (ConnectAttr src dst) sc = sc"
| "apply_cmd (Parent c p) sc = add_child c p sc"
| "apply_cmd (Rename olds new) sc = (case olds of [old] \<Rightarrow> rename_node old new sc | _ \<Rightarrow> sc)"
| "apply_cmd (Log_info msg) sc = sc"

section \<open>Running code against the scene\<close>

text \<open>
  A piece of code is a function from the scene to its outcome (an exception or a
  value) and the scene it leaves: what was changed before an exception stays changed.
\<close>

type_synonym 'a run = "scene \<Rightarrow> (error + 'a) \<times> scene"

definition ret :: "'a \<Rightarrow> 'a run" where
  "ret x sc = (Inr x, sc)"

definition throw :: "error \<Rightarrow> 'a run" where
  "throw e sc = (Inl e, sc)"

definition lift :: "error + 'a \<Rightarrow> 'a run" where
  "lift r sc = (r, sc)"

definition seq :: "'a run \<Rightarrow> ('a \<Rightarrow> 'b run) \<Rightarrow> 'b run" where
  "seq m f sc = (case m sc of (Inl e, sc') \<Rightarrow> (Inl e, sc') | (Inr x, sc') \<Rightarrow> f x sc')"

definition call :: "cmd \<Rightarrow> unit run" where
  "call c sc = (Inr (), log_call c (apply_cmd c sc))"

text \<open>A \<^verbatim>\<open>for\<close> loop over a list, threading the variables the body assigns.\<close>

fun for_each :: "'x list \<Rightarrow> 'v \<Rightarrow> ('x \<Rightarrow> 'v \<Rightarrow> 'v run) \<Rightarrow> 'v run" where
  "for_each [] v body sc = (Inr v, sc)"
| "for_each (x # xs) v body sc =
     (case body x v sc of
        (Inl e, sc') \<Rightarrow> (Inl e, sc')
      | (Inr v', sc') \<Rightarrow> for_each xs v' body sc')"

section \<open>utils.py\<close>

text \<open>
  \<^verbatim>\<open>list_deformers(mesh, types)\<close>: the history of the mesh's first shape, each entry
  kept once for every listed type it has, with those types.
\<close>

definition list_deformers :: "scene \<Rightarrow> string \<Rightarrow> string list \<Rightarrow> error + (string list \<times> string list)" where
  "list_deformers sc mesh types =
     (case listRelatives_shapes sc mesh of
        Inl e \<Rightarrow> Inl e
      | Inr relatives \<Rightarrow>
          (case relatives of
             [] \<Rightarrow> Inr ([], [])
           | shape_node # _ \<Rightarrow>
               (let found = concat (map (\<lambda>deformer. concat (map (\<lambda>typ.
                                case ls_type sc deformer typ of
                                  [] \<Rightarrow> []
                                | deformer_filtered # _ \<Rightarrow> [(deformer_filtered, typ)]) types))
                              (history sc shape_node))
                in Inr (map fst found, map snd found))))"

definition get_children :: "scene \<Rightarrow> string \<Rightarrow> error + string list" where
  "get_children sc node =
     (case listRelatives_children sc node of
        Inl e \<Rightarrow> Inl e
      | Inr childrens \<Rightarrow> Inr (filter (\<lambda>child. \<not> contains ''Shape'' child) childrens))"

text \<open>
  \<^verbatim>\<open>copy_deformers\<close>, lines 136 to 147: the names one entry of the stack stands for
  on a target.
\<close>

definition resolve_names :: "string \<Rightarrow> string \<Rightarrow> error + string list" where
  "resolve_names target deformer =
     (if prefix ''{}'' deformer then
        (case py_format [''L''] [] deformer of
           Inl e \<Rightarrow> Inl e
         | Inr l \<Rightarrow> (case py_format [''R''] [] deformer of
                      Inl e \<Rightarrow> Inl e
                    | Inr r \<Rightarrow> Inr [l, r]))
      else if prefix ''{name}'' deformer then
        (case py_format [] [(''name'', target)] deformer of
           Inl e \<Rightarrow> Inl e
         | Inr n \<Rightarrow> Inr [n])
      else if prefix ''{side}'' deformer then
        (case py_format [] [(''side'', first_token target)] deformer of
           Inl e \<Rightarrow> Inl e
         | Inr n \<Rightarrow> Inr [n])
      else Inr [deformer])"

text \<open>Lines 149 to 154: one resolved name; the variables are \<open>(missing, raw_missing)\<close>.\<close>

definition copy_one :: "string \<Rightarrow> string \<Rightarrow> string \<Rightarrow> string list \<times> string list
    \<Rightarrow> (string list \<times> string list) run" where
  "copy_one target deformer defo v sc =
     (if objExists sc defo then
        seq (call (Deformer_edit_geometry defo target)) (\<lambda>_. ret v) sc
      else ret (fst v @ [defo], snd v @ [deformer]) sc)"

text \<open>Lines 135 to 156: the loop over the reversed stack, and what is returned.\<close>

definition copy_stack :: "string \<Rightarrow> string list \<Rightarrow> (string list \<times> string list) run" where
  "copy_stack target deformer_stack =
     for_each (rev deformer_stack) ([], [])
       (\<lambda>deformer v. seq (lift (resolve_names target deformer))
          (\<lambda>deformers. for_each deformers v (copy_one target deformer)))"

definition copy_deformers :: "string \<Rightarrow> string \<Rightarrow> string list \<Rightarrow> string list
    \<Rightarrow> (string list \<times> string list) run" where
  "copy_deformers target source_mesh types deformer_stack sc =
     (if deformer_stack = [] then
        (case list_deformers sc source_mesh types of
           Inl e \<Rightarrow> (Inl e, sc)
         | Inr listed \<Rightarrow> copy_stack target (fst listed) sc)
      else copy_stack target deformer_stack sc)"

definition shrinkwrap_parameters :: "(string \<times> real) list" where
  "shrinkwrap_parameters =
     [(''projection'', 2), (''closestIfNoIntersection'', 1), (''reverse'', 0),
      (''bidirectional'', 1), (''boundingBoxCenter'', 1), (''axisReference'', 1),
      (''alongX'', 0), (''alongY'', 0), (''alongZ'', 1), (''offset'', 0),
      (''targetInflation'', 0), (''targetSmoothLevel'', 0), (''falloff'', 0),
      (''falloffIterations'', 1), (''shapePreservationEnable'', 0),
      (''shapePreservationSteps'', 1)]"

definition shrinkwrap_connections :: "(string \<times> string) list" where
  "shrinkwrap_connections =
     [(''worldMesh'', ''targetGeom''), (''continuity'', ''continuity''),
      (''smoothUVs'', ''smoothUVs''), (''keepBorder'', ''keepBorder''),
      (''boundaryRule'', ''boundaryRule''), (''keepHardEdge'', ''keepHardEdge''),
      (''propagateEdgeHardness'', ''propagateEdgeHardness''),
      (''keepMapBorders'', ''keepMapBorders'')]"

definition create_shrinkwrap :: "string \<Rightarrow> string \<Rightarrow> string \<Rightarrow> (string \<times> real) list
    \<Rightarrow> string list run" where
  "create_shrinkwrap mesh target name kwargs =
     seq (\<lambda>sc. lift (listRelatives_shapes sc target) sc)
       (\<lambda>relatives. case relatives of
          [] \<Rightarrow> throw TypeError
        | target_shape # _ \<Rightarrow>
            seq (call (Deformer_create [mesh] ''shrinkWrap'' name))
              (\<lambda>_. seq (for_each shrinkwrap_parameters ()
                          (\<lambda>pd _. call (SetAttr (name @ ''.'' @ fst pd)
                             (case map_of kwargs (fst pd) of None \<Rightarrow> snd pd | Some v \<Rightarrow> v))))
                 (\<lambda>_. seq (for_each shrinkwrap_connections ()
                             (\<lambda>oi _. call (ConnectAttr (target_shape @ ''.'' @ fst oi)
                                (name @ ''.'' @ snd oi))))
                    (\<lambda>_. ret [name]))))"

text \<open>
  Lines 179 to 183 of \<^verbatim>\<open>create_deformer\<close>, and 173 to 177 of \<^verbatim>\<open>create_all_deformers\<close>:
  the first association with the suffix assigns \<^verbatim>\<open>deformer_type\<close>; when there is none
  the variable keeps what it held.
\<close>

definition find_type :: "association list \<Rightarrow> string \<Rightarrow> string option \<Rightarrow> string option" where
  "find_type association_map sfx deformer_type =
     (case find (\<lambda>association. assoc_suffix association = sfx) association_map of
        None \<Rightarrow> deformer_type
      | Some association \<Rightarrow> Some (assoc_type association))"

definition create_typed :: "config \<Rightarrow> string \<Rightarrow> string \<Rightarrow> string list \<Rightarrow> string list run" where
  "create_typed cfg deformer_type name meshes =
     (if deformer_type = ''cluster'' then
        seq (call (Cluster meshes name)) (\<lambda>_. ret [name])
      else if deformer_type = ''ffd'' then
        seq (call (Lattice meshes name)) (\<lambda>_. ret [name])
      else if deformer_type = ''blendShape'' then
        seq (call (BlendShape meshes name)) (\<lambda>_. ret [name])
      else if deformer_type = ''wire'' then
        seq (lift (item meshes 0))
          (\<lambda>m0. seq (call (Wire m0 (drop 1 meshes) name)) (\<lambda>_. ret [name]))
      else if deformer_type = ''wrap'' then
        seq (lift (item meshes 0)) (\<lambda>m0. seq (lift (item meshes 1)) (\<lambda>m1.
        seq (call (Create_wrap m0 m1 name)) (\<lambda>_.
        seq (call (SetAttr (name @ ''.maxDistance'') 1)) (\<lambda>_.
        seq (call (SetAttr (name @ ''.autoWeightThreshold'') 1)) (\<lambda>_.
        seq (\<lambda>sc. (case ls_prefix_type sc (m0 @ ''Base'') ''transform'' of
                     [] \<Rightarrow> throw IndexError
                   | b # bs \<Rightarrow> ret (last (b # bs))) sc) (\<lambda>base.
        seq (call (Parent base (GROUPS_HIERARCHY_tool cfg))) (\<lambda>_. ret [name])))))))
      else if deformer_type = ''proximityWrap'' then
        seq (lift (item meshes 0)) (\<lambda>m0. seq (lift (item meshes 1)) (\<lambda>m1.
        seq (call (Create_proximity_wrap [m0] [m1] name)) (\<lambda>_. ret [name])))
      else if deformer_type = ''shrinkWrap'' then
        seq (lift (item meshes 1)) (\<lambda>m1. seq (lift (item meshes 0)) (\<lambda>m0.
        create_shrinkwrap m1 m0 name []))
      else if deformer_type = ''bend'' then
        seq (lift (item meshes 0))
          (\<lambda>m0. seq (call (NonLinear m0 name ''bend'')) (\<lambda>_. ret [name]))
      else
        (\<lambda>sc. seq (call (Deformer_create (selection sc) deformer_type name)) (\<lambda>_. ret [name]) sc))"

text \<open>
  \<^verbatim>\<open>create_deformer\<close>. The value is \<open>None\<close> for Python's \<^verbatim>\<open>None\<close>, and otherwise
  the host's result, of which the graph keeps the deformer's name.
\<close>

definition create_deformer :: "config \<Rightarrow> string \<Rightarrow> string list \<Rightarrow> string option
    \<Rightarrow> association list \<Rightarrow> string list option run" where
  "create_deformer cfg name meshes deformer_type association_map =
     (let deformer_type =
            (if \<not> truthy deformer_type
             then find_type association_map (last_token name) deformer_type
             else deformer_type)
      in if truthy deformer_type
         then seq (create_typed cfg (the deformer_type) name meshes) (\<lambda>deformer. ret (Some deformer))
         else ret None)"

definition bind_skincluster :: "string \<Rightarrow> string \<Rightarrow> string list \<Rightarrow> bool \<Rightarrow> nat \<Rightarrow> real
    \<Rightarrow> unit run" where
  "bind_skincluster name mesh jnts use_hier method env =
     seq (\<lambda>sc. (if objExists sc name
                then call (SkinCluster_add_influence name jnts)
                else call (SkinCluster_bind jnts mesh method (\<not> use_hier) name)) sc)
       (\<lambda>_. call (SetAttr (name @ ''.envelope'') env))"

section \<open>build.py\<close>

text \<open>\<^verbatim>\<open>deformers[key]\<close> and \<^verbatim>\<open>deformers[key][field]\<close>.\<close>

definition lookup_key :: "stack \<Rightarrow> string \<Rightarrow> error + params option" where
  "lookup_key deformers key = (case map_of deformers key of None \<Rightarrow> Inl KeyError | Some p \<Rightarrow> Inr p)"

definition subscript :: "params option \<Rightarrow> (params \<Rightarrow> 'a option) \<Rightarrow> error + 'a" where
  "subscript p field =
     (case p of
        None \<Rightarrow> Inl TypeError
      | Some d \<Rightarrow> (case field d of None \<Rightarrow> Inl KeyError | Some v \<Rightarrow> Inr v))"

text \<open>
  \<^verbatim>\<open>create_all_deformers\<close>, lines 173 to 196: the body of the loop over
  \<^verbatim>\<open>zip(raw_missing, missing)\<close>. The variable threaded through is \<^verbatim>\<open>deformer_type\<close>,
  local to the function and assigned nowhere else: \<open>None\<close> while it is unbound.
\<close>

definition create_missing :: "config \<Rightarrow> stack \<Rightarrow> string \<Rightarrow> string \<times> string \<Rightarrow> string option
    \<Rightarrow> string option run" where
  "create_missing cfg deformers mesh kd deformer_type =
     (let key = fst kd; deformer = snd kd;
          deformer_type = find_type (DEFORMER_SUFFIX_ASSOCIATIONS cfg) (last_token deformer)
                            deformer_type
      in case deformer_type of
           None \<Rightarrow> throw UnboundLocalError
         | Some typ \<Rightarrow>
             if typ = [] then ret deformer_type
             else if typ = ''skinCluster'' then
               seq (lift (lookup_key deformers key)) (\<lambda>p.
               seq (lift (subscript p joints)) (\<lambda>jnts.
               seq (lift (subscript p use_hierarchy)) (\<lambda>use_hier.
               seq (lift (subscript p envelope)) (\<lambda>env.
               seq (bind_skincluster deformer mesh jnts use_hier 1 env)
                 (\<lambda>_. ret deformer_type)))))
             else
               seq (lift (lookup_key deformers key)) (\<lambda>p.
               seq (case p of
                      None \<Rightarrow> ret [mesh]
                    | Some d \<Rightarrow> seq (lift (subscript p source)) (\<lambda>src. ret [src, mesh]))
                 (\<lambda>meshes.
               seq (create_deformer cfg deformer meshes None (DEFORMER_SUFFIX_ASSOCIATIONS cfg))
                 (\<lambda>_. ret deformer_type))))"

text \<open>Lines 168 to 196: the body of the loop over the meshes of one object.\<close>

definition reconcile :: "config \<Rightarrow> stack \<Rightarrow> string \<Rightarrow> string option \<Rightarrow> string option run" where
  "reconcile cfg deformers mesh deformer_type =
     seq (copy_deformers mesh [] [''cluster'', ''ffd''] (map fst deformers))
       (\<lambda>mr. for_each (zip (snd mr) (fst mr)) deformer_type (create_missing cfg deformers mesh))"

text \<open>Lines 157 to 163: the objects a key of the table stands for.\<close>

definition target_objects :: "string \<Rightarrow> error + string list" where
  "target_objects node =
     (if prefix ''{}'' node then
        (case py_format [''L''] [] node of
           Inl e \<Rightarrow> Inl e
         | Inr l \<Rightarrow> (case py_format [''R''] [] node of
                      Inl e \<Rightarrow> Inl e
                    | Inr r \<Rightarrow> Inr [l, r]))
      else Inr [node])"

text \<open>Lines 166 to 196: the body of the loop over the objects.\<close>

definition reconcile_object :: "config \<Rightarrow> stack \<Rightarrow> string \<Rightarrow> string option \<Rightarrow> string option run" where
  "reconcile_object cfg deformers obj deformer_type =
     seq (\<lambda>sc. lift (get_children sc obj) sc)
       (\<lambda>childs. for_each (if childs = [] then [obj] else childs) deformer_type
          (reconcile cfg deformers))"

text \<open>Lines 157 to 196: the body of the loop over the entries of the table.\<close>

definition reconcile_target :: "config \<Rightarrow> string \<times> stack \<Rightarrow> string option \<Rightarrow> string option run" where
  "reconcile_target cfg nd deformer_type =
     seq (lift (target_objects (fst nd)))
       (\<lambda>objects. for_each objects deformer_type (reconcile_object cfg (snd nd)))"

definition create_all_deformers :: "config \<Rightarrow> (string \<times> stack) list \<Rightarrow> string option run" where
  "create_all_deformers cfg deformers_data = for_each deformers_data None (reconcile_target cfg)"

text \<open>
  \<^verbatim>\<open>get_meshes\<close> of \<^verbatim>\<open>utils.py\<close>, which reads the table \<^verbatim>\<open>DEFORMERS_STACK\<close> itself. First
  the body of the loop over \<^verbatim>\<open>side_obj\<close>; the variable is \<^verbatim>\<open>meshes\<close>.
\<close>

definition append_child :: "string \<Rightarrow> string list \<Rightarrow> string list run" where
  "append_child child meshes =
     (if prefix ''{}'' child then
        seq (lift (py_format [''L''] [] child)) (\<lambda>l.
        seq (lift (py_format [''R''] [] child)) (\<lambda>r. ret (meshes @ [l, r])))
      else ret (meshes @ [child]))"

definition get_meshes_node :: "string \<Rightarrow> string list \<Rightarrow> string list run" where
  "get_meshes_node node meshes sc =
     (if \<not> objExists sc node \<and> node \<noteq> ''M_eyelash_rig_mesh'' then
        seq (call (Log_info (node @ '' does not exist and he is skipped''))) (\<lambda>_. ret meshes) sc
      else
        (let node = (if \<not> objExists sc node then ''M_eyelash_rig05_mesh'' else node)
         in seq (\<lambda>sc. lift (get_children sc node) sc)
              (\<lambda>childs. for_each (if childs = [] then [node] else childs) meshes append_child) sc))"

fun items :: "'a list \<Rightarrow> nat list \<Rightarrow> error + 'a list" where
  "items xs [] = Inr []"
| "items xs (i # is) =
     (case item xs i of
        Inl e \<Rightarrow> Inl e
      | Inr x \<Rightarrow> (case items xs is of Inl e \<Rightarrow> Inl e | Inr ys \<Rightarrow> Inr (x # ys)))"

definition get_meshes :: "config \<Rightarrow> nat list \<Rightarrow> string list run" where
  "get_meshes cfg deformer_stack_keys =
     seq (lift (items (map fst (DEFORMERS_STACK cfg)) deformer_stack_keys))
       (\<lambda>objects. for_each objects []
          (\<lambda>obj meshes. seq (lift (target_objects obj))
             (\<lambda>side_obj. for_each side_obj meshes get_meshes_node)))"

text \<open>
  \<^verbatim>\<open>rename_scene\<close>, lines 423 to 450: the body of the loop over the meshes of one
  entry. The comparison of line 443 is between a list and a string and is never
  true, so it has no branch here.
\<close>

definition skincluster_key :: "stack \<Rightarrow> string option" where
  "skincluster_key deformers = find (\<lambda>deformer. suffix ''_skinCluster'' deformer) (map fst deformers)"

definition resolve_skincluster_name :: "string \<Rightarrow> string \<Rightarrow> error + string" where
  "resolve_skincluster_name mesh n0 =
     (case (if prefix ''{name}'' n0 then py_format [] [(''name'', mesh)] n0 else Inr n0) of
        Inl e \<Rightarrow> Inl e
      | Inr n1 \<Rightarrow>
          (if prefix ''{side}'' n1 then py_format [] [(''side'', first_token mesh)] n1
           else Inr n1))"

definition rename_skincluster :: "stack \<Rightarrow> string \<Rightarrow> unit run" where
  "rename_skincluster deformers mesh sc =
     (case list_deformers sc mesh [''skinCluster''] of
        Inl e \<Rightarrow> (Inl e, sc)
      | Inr found \<Rightarrow>
          (let skincluster = fst found in
           if skincluster = [] then ret () sc
           else (case skincluster_key deformers of
                   None \<Rightarrow> ret () sc
                 | Some n0 \<Rightarrow>
                     seq (lift (resolve_skincluster_name mesh n0)) (\<lambda>skincluster_name.
                     if length skincluster > 1 then throw RuntimeError
                     else call (Rename skincluster skincluster_name)) sc)))"

text \<open>Lines 419 to 450: the loop that renames the skinClusters.\<close>

definition rename_skinclusters :: "config \<Rightarrow> (string \<times> stack) list \<Rightarrow> unit run" where
  "rename_skinclusters cfg deformers_data =
     for_each (enumerate 0 deformers_data) ()
       (\<lambda>ind _. seq (get_meshes cfg [fst ind])
          (\<lambda>meshes. for_each meshes () (\<lambda>mesh _. rename_skincluster (snd (snd ind)) mesh)))"

section \<open>Vocabulary of the properties\<close>

text \<open>A name is one of those a stack entry stands for on a target.\<close>

definition expansion_of :: "string \<Rightarrow> string \<Rightarrow> string \<Rightarrow> bool" where
  "expansion_of target deformer defo =
     (case resolve_names target deformer of Inl e \<Rightarrow> False | Inr ds \<Rightarrow> defo \<in> set ds)"

text \<open>The two lists \<^verbatim>\<open>copy_deformers\<close> builds correspond position by position.\<close>

definition corresponds :: "string \<Rightarrow> string set \<Rightarrow> string list \<times> string list \<Rightarrow> bool" where
  "corresponds target S v =
     (list_all2 (\<lambda>defo deformer. expansion_of target deformer defo) (fst v) (snd v)
      \<and> set (snd v) \<subseteq> S)"

text \<open>A deformer is on a mesh: it is in the history of each of the mesh's shapes.\<close>

definition attached :: "scene \<Rightarrow> string \<Rightarrow> string \<Rightarrow> bool" where
  "attached sc mesh d = (\<forall>s \<in> set (shapes sc mesh). d \<in> set (history sc s))"

text \<open>
  The names the keys of a stack stand for on a target, in the order of the keys, alone
  and with their keys.
\<close>

definition names_of :: "string \<Rightarrow> string list \<Rightarrow> string list" where
  "names_of target ks =
     concat (map (\<lambda>k. case resolve_names target k of Inl e \<Rightarrow> [] | Inr ds \<Rightarrow> ds) ks)"

definition pairs_of :: "string \<Rightarrow> string list \<Rightarrow> (string \<times> string) list" where
  "pairs_of target ks =
     concat (map (\<lambda>k. case resolve_names target k of Inl e \<Rightarrow> [] | Inr ds \<Rightarrow> map (Pair k) ds) ks)"

text \<open>
  The same names with the two names of a side-templated key exchanged: the order in
  which a chain built by a reversed walk lists them.
\<close>

definition chain_of :: "string \<Rightarrow> string list \<Rightarrow> string list" where
  "chain_of target ks =
     concat (map (\<lambda>k. case resolve_names target k of Inl e \<Rightarrow> [] | Inr ds \<Rightarrow> rev ds) ks)"

text \<open>
  The chains of the second scene are those of the first with entries added in front;
  a piece of code under which chains only grow so; the one call that is not of this
  kind.
\<close>

definition grows :: "scene \<Rightarrow> scene \<Rightarrow> bool" where
  "grows sc sc' = (\<forall>s. suffix (history sc s) (history sc' s))"



text \<open>
  A spec with parameters \<open>p\<close> and resolved name \<open>n\<close> is one whose creation
  deforms the target: the suffix table gives its name a kind among those listed, and
  the parameters are those the kind reads. A cluster, lattice or blendShape takes the
  target alone or after a source; a wire or bend takes the target alone, since with a
  source it is the source that is deformed; the wraps take a source. For a wrap the
  base object of the source, \<open>source @ ''Base''\<close>, is not one of the names \<open>N\<close> of
  the stack and is a transform if it exists; for a shrinkWrap the source exists and
  has a shape.
\<close>

definition deforms_target :: "config \<Rightarrow> scene \<Rightarrow> string set \<Rightarrow> params option \<Rightarrow> string \<Rightarrow> bool" where
  "deforms_target cfg sc N p n =
     (case find_type (DEFORMER_SUFFIX_ASSOCIATIONS cfg) (last_token n) None of
        None \<Rightarrow> False
      | Some typ \<Rightarrow>
          if typ = ''skinCluster'' then
            (case p of
               None \<Rightarrow> False
             | Some d \<Rightarrow> joints d \<noteq> None \<and> use_hierarchy d \<noteq> None \<and> envelope d \<noteq> None)
          else if typ = ''cluster'' \<or> typ = ''ffd'' \<or> typ = ''blendShape'' then
            (case p of None \<Rightarrow> True | Some d \<Rightarrow> source d \<noteq> None)
          else if typ = ''wire'' \<or> typ = ''bend'' then p = None
          else if typ = ''proximityWrap'' then
            (case p of None \<Rightarrow> False | Some d \<Rightarrow> source d \<noteq> None)
          else if typ = ''wrap'' then
            (case p of
               None \<Rightarrow> False
             | Some d \<Rightarrow>
                 (case source d of
                    None \<Rightarrow> False
                  | Some src \<Rightarrow>
                      src @ ''Base'' \<notin> N
                      \<and> (objExists sc (src @ ''Base'')
                           \<longrightarrow> (src @ ''Base'', ''transform'') \<in> set (nodes sc))))
          else if typ = ''shrinkWrap'' then
            (case p of
               None \<Rightarrow> False
             | Some d \<Rightarrow>
                 (case source d of
                    None \<Rightarrow> False
                  | Some src \<Rightarrow> objExists sc src \<and> shapes sc src \<noteq> []))
          else False)"

text \<open>What one creation does to the scene, as far as the next ones depend on it.\<close>

definition step :: "string set \<Rightarrow> string \<Rightarrow> string \<Rightarrow> scene \<Rightarrow> scene \<Rightarrow> bool" where
  "step N n mesh sc sc' =
     (shapes sc' = shapes sc \<and> set (nodes sc) \<subseteq> set (nodes sc') \<and> objExists sc' n
      \<and> (\<forall>x t. (x, t) \<in> set (nodes sc')
            \<longrightarrow> (x, t) \<in> set (nodes sc) \<or> x = n \<or> (x \<notin> N \<and> t = ''transform''))
      \<and> (\<forall>s \<in> set (shapes sc mesh).
            history sc' s = (if n \<in> set (history sc s) then history sc s else n # history sc s)))"

section \<open>Examples\<close>

text \<open>A suffix table, a scene with one mesh and no deformers, and a stack for the mesh.\<close>

definition example_cfg :: config where
  "example_cfg =
     \<lparr>DEFORMER_SUFFIX_ASSOCIATIONS =
        [\<lparr>assoc_suffix = ''cluster'', assoc_type = ''cluster''\<rparr>,
         \<lparr>assoc_suffix = ''ffd'', assoc_type = ''ffd''\<rparr>,
         \<lparr>assoc_suffix = ''skinCluster'', assoc_type = ''skinCluster''\<rparr>],
      DEFORMERS_STACK = [],
      GROUPS_HIERARCHY_tool = ''tool_grp''\<rparr>"

definition example_scene :: scene where
  "example_scene =
     \<lparr>nodes = [(''M_body_mesh'', ''transform''), (''M_body_meshShape'', ''mesh'')],
      children = (\<lambda>_. [])(''M_body_mesh'' := [''M_body_meshShape'']),
      shapes = (\<lambda>_. [])(''M_body_mesh'' := [''M_body_meshShape'']),
      history = (\<lambda>_. []),
      selection = [],
      calls = []\<rparr>"

definition skin_params :: params where
  "skin_params = \<lparr>joints = Some [''M_jaw_jnt''], use_hierarchy = Some False,
                   envelope = Some 1, source = None\<rparr>"

definition example_stack :: stack where
  "example_stack = [(''M_body_cluster'', None), (''M_body_ffd'', None),
                    (''{name}_skinCluster'', Some skin_params)]"

definition example_first_run :: "(error + string option) \<times> scene" where
  "example_first_run = reconcile example_cfg example_stack ''M_body_mesh'' None example_scene"

text \<open>A mesh with two skinClusters in its history.\<close>

definition two_skin_scene :: scene where
  "two_skin_scene =
     \<lparr>nodes = [(''M_body_mesh'', ''transform''), (''M_body_meshShape'', ''mesh''),
               (''skinCluster1'', ''skinCluster''), (''skinCluster2'', ''skinCluster'')],
      children = (\<lambda>_. [])(''M_body_mesh'' := [''M_body_meshShape'']),
      shapes = (\<lambda>_. [])(''M_body_mesh'' := [''M_body_meshShape'']),
      history = (\<lambda>_. [])(''M_body_meshShape'' := [''skinCluster2'', ''skinCluster1'']),
      selection = [],
      calls = []\<rparr>"

text \<open>
  Two meshes, with a deformer on the body that a stack of the head names; and the
  same with a skinCluster on the head under the name the body's stack resolves to.
\<close>

definition shared_scene :: scene where
  "shared_scene =
     \<lparr>nodes = [(''M_body_mesh'', ''transform''), (''M_body_meshShape'', ''mesh''),
               (''M_head_mesh'', ''transform''), (''M_head_meshShape'', ''mesh''),
               (''M_jaw_cluster'', ''cluster'')],
      children = (\<lambda>_. [])(''M_body_mesh'' := [''M_body_meshShape''],
                             ''M_head_mesh'' := [''M_head_meshShape'']),
      shapes = (\<lambda>_. [])(''M_body_mesh'' := [''M_body_meshShape''],
                           ''M_head_mesh'' := [''M_head_meshShape'']),
      history = (\<lambda>_. [])(''M_body_meshShape'' := [''M_jaw_cluster'']),
      selection = [],
      calls = []\<rparr>"

definition head_stack :: stack where
  "head_stack = [(''M_brow_cluster'', None), (''M_jaw_cluster'', None), (''M_nose_cluster'', None)]"

definition skinned_scene :: scene where
  "skinned_scene =
     \<lparr>nodes = [(''M_body_mesh'', ''transform''), (''M_body_meshShape'', ''mesh''),
               (''M_head_mesh'', ''transform''), (''M_head_meshShape'', ''mesh''),
               (''M_body_mesh_skinCluster'', ''skinCluster'')],
      children = (\<lambda>_. [])(''M_body_mesh'' := [''M_body_meshShape''],
                             ''M_head_mesh'' := [''M_head_meshShape'']),
      shapes = (\<lambda>_. [])(''M_body_mesh'' := [''M_body_meshShape''],
                           ''M_head_mesh'' := [''M_head_meshShape'']),
      history = (\<lambda>_. [])(''M_head_meshShape'' := [''M_body_mesh_skinCluster'']),
      selection = [],
      calls = []\<rparr>"

text \<open>Tables with a target that is absent, and with a suffix that has no association.\<close>

definition ghost_data :: "(string \<times> stack) list" where
  "ghost_data = [(''M_ghost_mesh'', [(''M_ghost_cluster'', None)]),
                 (''M_body_mesh'', [(''M_body_cluster'', None)])]"

definition unresolvable_last_data :: "(string \<times> stack) list" where
  "unresolvable_last_data = [(''M_body_mesh'', [(''M_body_cluster'', None), (''M_body_foo'', None)])]"

definition leftover_data :: "(string \<times> stack) list" where
  "leftover_data =
     [(''M_body_mesh'', [(''M_body_foo'', Some skin_params),
                         (''M_body_skinCluster'', Some skin_params)])]"

section \<open>Properties\<close>

subsection \<open>A name without a matching suffix\<close>

text \<open>
  C9. When \<^verbatim>\<open>create_deformer\<close> is given no deformer type (\<^verbatim>\<open>None\<close>, or the empty
  string, which Python treats alike) and the last token of the name, split at
  underscores, is the suffix of no association of the map, it returns \<^verbatim>\<open>None\<close>
  without raising, and the scene is as before: nothing is created and no call is issued.
\<close>

theorem create_deformer_no_match:
  assumes "\<not> truthy deformer_type"
    and "\<forall>a \<in> set association_map. assoc_suffix a \<noteq> last_token name"
  shows "create_deformer cfg name meshes deformer_type association_map sc = (Inr None, sc)"
proof -
  have "find (\<lambda>a. assoc_suffix a = last_token name) association_map = None"
    using assms(2) by (simp add: find_None_iff)
  then have "find_type association_map (last_token name) deformer_type = deformer_type"
    by (simp add: find_type_def)
  with assms(1) show ?thesis
    by (simp add: create_deformer_def ret_def)
qed

theorem create_deformer_no_match_witness:
  "\<not> truthy None
   \<and> last_token ''M_body_foo'' \<notin> assoc_suffix ` set (DEFORMER_SUFFIX_ASSOCIATIONS example_cfg)
   \<and> create_deformer example_cfg ''M_body_foo'' [''M_body_mesh''] None
        (DEFORMER_SUFFIX_ASSOCIATIONS example_cfg) example_scene = (Inr None, example_scene)"
proof -
  have h1: "\<not> truthy None"
    by (simp add: truthy_def)
  have h2: "\<forall>a \<in> set (DEFORMER_SUFFIX_ASSOCIATIONS example_cfg).
              assoc_suffix a \<noteq> last_token ''M_body_foo''"
    by (simp add: example_cfg_def last_token_def)
  show ?thesis
    using h1 h2 create_deformer_no_match [OF h1 h2] by auto
qed

subsection \<open>Running code: basic facts\<close>

lemma seq_ret [simp]: "seq (ret x) f sc = f x sc"
  by (simp add: seq_def ret_def)

lemma seq_throw [simp]: "seq (throw e) f sc = (Inl e, sc)"
  by (simp add: seq_def throw_def)

lemma seq_lift_Inr [simp]: "seq (lift (Inr x)) f sc = f x sc"
  by (simp add: seq_def lift_def)

lemma seq_lift_Inl [simp]: "seq (lift (Inl e)) f sc = (Inl e, sc)"
  by (simp add: seq_def lift_def)

lemma seq_call [simp]: "seq (call c) f sc = f () (log_call c (apply_cmd c sc))"
  by (simp add: seq_def call_def)

lemma for_each_invariant:
  assumes "for_each xs v body sc = (Inr v', sc')"
    and "P v sc"
    and "\<And>x v sc v' sc'. x \<in> set xs \<Longrightarrow> P v sc \<Longrightarrow> body x v sc = (Inr v', sc') \<Longrightarrow> P v' sc'"
  shows "P v' sc'"
  using assms
proof (induction xs arbitrary: v sc)
  case Nil
  then show ?case by simp
next
  case (Cons x xs)
  from Cons.prems(1) obtain v1 sc1 where
    b: "body x v sc = (Inr v1, sc1)" and r: "for_each xs v1 body sc1 = (Inr v', sc')"
    by (auto split: prod.splits sum.splits)
  have "P v1 sc1"
    using Cons.prems(3) [of x v sc v1 sc1] Cons.prems(2) b by simp
  then show ?case
  proof (rule Cons.IH [OF r])
    fix y w s w' s'
    assume "y \<in> set xs" "P w s" "body y w s = (Inr w', s')"
    then show "P w' s'"
      using Cons.prems(3) [of y w s w' s'] by simp
  qed
qed

lemma for_each_total:
  assumes "\<And>x v sc. x \<in> set xs \<Longrightarrow> \<exists>v' sc'. body x v sc = (Inr v', sc')"
  shows "\<exists>v' sc'. for_each xs v body sc = (Inr v', sc')"
  using assms
proof (induction xs arbitrary: v sc)
  case Nil
  then show ?case by simp
next
  case (Cons x xs)
  obtain v1 sc1 where b: "body x v sc = (Inr v1, sc1)"
    using Cons.prems [of x v sc] by auto
  then show ?case
    using Cons.IH [of v1 sc1] Cons.prems by simp
qed

lemma copy_one_eq:
  "copy_one target deformer defo v sc =
     (if objExists sc defo
      then (Inr v, log_call (Deformer_edit_geometry defo target) (attach defo target sc))
      else (Inr (fst v @ [defo], snd v @ [deformer]), sc))"
  by (simp add: copy_one_def ret_def)

lemmas string_eval = split_on.simps first_token_def last_token_def truthy_def
  field_special_def emit_def py_format_def item_def

lemmas host_eval = objExists_def listRelatives_children_def listRelatives_shapes_def
  ls_type_def ls_prefix_type_def log_call_def add_node_def attach_def create_node_def
  add_child_def rename_node_def

lemmas run_eval = ret_def throw_def lift_def seq_def call_def

lemmas utils_eval = list_deformers_def get_children_def resolve_names_def copy_one_def
  copy_stack_def copy_deformers_def shrinkwrap_parameters_def shrinkwrap_connections_def
  create_shrinkwrap_def find_type_def create_typed_def create_deformer_def
  bind_skincluster_def append_child_def get_meshes_node_def get_meshes_def

lemmas build_eval = lookup_key_def subscript_def create_missing_def reconcile_def
  target_objects_def reconcile_object_def reconcile_target_def create_all_deformers_def
  skincluster_key_def resolve_skincluster_name_def rename_skincluster_def rename_skinclusters_def

subsection \<open>The lists returned by \<^verbatim>\<open>copy_deformers\<close>\<close>

lemma copy_one_corresponds:
  assumes "copy_one target deformer defo v sc = (Inr v', sc')"
    and "corresponds target S v" and "expansion_of target deformer defo" and "deformer \<in> S"
  shows "corresponds target S v'"
  using assms
  by (auto simp: copy_one_eq corresponds_def list_all2_appendI split: if_splits)

lemma copy_loop_corresponds:
  assumes "copy_stack target stack sc = (Inr v', sc')"
  shows "corresponds target (set stack) v'"
proof (rule for_each_invariant [OF assms [unfolded copy_stack_def],
         where P = "\<lambda>v sc. corresponds target (set stack) v"])
  show "corresponds target (set stack) ([], [])"
    by (simp add: corresponds_def)
next
  fix x v sc v' sc'
  assume x: "x \<in> set (rev stack)" and c: "corresponds target (set stack) v"
    and b: "seq (lift (resolve_names target x))
              (\<lambda>deformers. for_each deformers v (copy_one target x)) sc = (Inr v', sc')"
  from b obtain ds where ds: "resolve_names target x = Inr ds"
    and l: "for_each ds v (copy_one target x) sc = (Inr v', sc')"
    by (cases "resolve_names target x") auto
  show "corresponds target (set stack) v'"
  proof (rule for_each_invariant [OF l, where P = "\<lambda>v sc. corresponds target (set stack) v"])
    show "corresponds target (set stack) v" by (rule c)
  next
    fix d w sc1 w' sc1'
    assume "d \<in> set ds" "corresponds target (set stack) w"
      "copy_one target x d w sc1 = (Inr w', sc1')"
    then show "corresponds target (set stack) w'"
      using copy_one_corresponds [of target x d w sc1 w' sc1' "set stack"] ds x
      by (simp add: expansion_of_def)
  qed
qed

lemma copy_stack_total:
  assumes "\<forall>d \<in> set stack. \<exists>ds. resolve_names target d = Inr ds"
  shows "\<exists>r sc'. copy_stack target stack sc = (Inr r, sc')"
  unfolding copy_stack_def
proof (rule for_each_total)
  fix x v sc
  assume "x \<in> set (rev stack)"
  then obtain ds where ds: "resolve_names target x = Inr ds"
    using assms by auto
  have "\<exists>v' sc'. for_each ds v (copy_one target x) sc = (Inr v', sc')"
    by (rule for_each_total) (simp add: copy_one_eq)
  then show "\<exists>v' sc'. seq (lift (resolve_names target x))
           (\<lambda>deformers. for_each deformers v (copy_one target x)) sc = (Inr v', sc')"
    by (simp add: ds)
qed

lemma copy_deformers_corresponds:
  assumes run: "copy_deformers target source_mesh types deformer_stack sc = (Inr (missing, raw_missing), sc')"
  shows "length missing = length raw_missing
         \<and> (\<forall>i < length missing. expansion_of target (raw_missing ! i) (missing ! i))
         \<and> (deformer_stack \<noteq> [] \<longrightarrow> set raw_missing \<subseteq> set deformer_stack)"
proof -
  from run obtain stack where
    l: "copy_stack target stack sc = (Inr (missing, raw_missing), sc')"
    and st: "deformer_stack \<noteq> [] \<longrightarrow> stack = deformer_stack"
    by (auto simp: copy_deformers_def split: if_splits sum.splits)
  have c: "corresponds target (set stack) (missing, raw_missing)"
    by (rule copy_loop_corresponds [OF l])
  then have "length missing = length raw_missing"
    by (auto simp: corresponds_def dest: list_all2_lengthD)
  moreover from c have "\<forall>i < length missing. expansion_of target (raw_missing ! i) (missing ! i)"
    by (simp add: corresponds_def list_all2_conv_all_nth)
  moreover from c st have "deformer_stack \<noteq> [] \<longrightarrow> set raw_missing \<subseteq> set deformer_stack"
    by (auto simp: corresponds_def)
  ultimately show ?thesis by blast
qed

text \<open>
  C10. Whenever \<^verbatim>\<open>copy_deformers\<close> returns, its two lists have the same length and
  at every index the entry of \<open>missing\<close> is one of the names the template at the same
  index of \<open>raw_missing\<close> stands for on the target (its side expansion, its expansion
  by the target's name or side, or the template itself when it has no placeholder in
  front); the templates are keys of the stack that was passed. It does return when a
  stack is passed and every template of the stack can be expanded.
\<close>

theorem copy_deformers_positional:
  "(copy_deformers target source_mesh types deformer_stack sc = (Inr (missing, raw_missing), sc')
      \<longrightarrow> length missing = length raw_missing
          \<and> (\<forall>i < length missing. expansion_of target (raw_missing ! i) (missing ! i))
          \<and> (deformer_stack \<noteq> [] \<longrightarrow> set raw_missing \<subseteq> set deformer_stack))
   \<and> (deformer_stack \<noteq> [] \<and> (\<forall>d \<in> set deformer_stack. \<exists>ds. resolve_names target d = Inr ds)
      \<longrightarrow> (\<exists>r sc''. copy_deformers target source_mesh types deformer_stack sc = (Inr r, sc'')))"
proof (rule conjI)
  show "copy_deformers target source_mesh types deformer_stack sc = (Inr (missing, raw_missing), sc')
      \<longrightarrow> length missing = length raw_missing
          \<and> (\<forall>i < length missing. expansion_of target (raw_missing ! i) (missing ! i))
          \<and> (deformer_stack \<noteq> [] \<longrightarrow> set raw_missing \<subseteq> set deformer_stack)"
    using copy_deformers_corresponds by blast
  show "deformer_stack \<noteq> [] \<and> (\<forall>d \<in> set deformer_stack. \<exists>ds. resolve_names target d = Inr ds)
      \<longrightarrow> (\<exists>r sc''. copy_deformers target source_mesh types deformer_stack sc = (Inr r, sc''))"
    using copy_stack_total [of deformer_stack target sc] by (simp add: copy_deformers_def)
qed

lemma ex_copy:
  "copy_deformers ''L_eye_mesh'' [] [''cluster'', ''ffd'']
     [''{}_eye_cluster'', ''{side}_lid_ffd'', ''{name}_skinCluster'', ''M_body_mesh'']
     example_scene =
   (Inr ([''L_eye_mesh_skinCluster'', ''L_lid_ffd'', ''L_eye_cluster'', ''R_eye_cluster''],
         [''{name}_skinCluster'', ''{side}_lid_ffd'', ''{}_eye_cluster'', ''{}_eye_cluster'']),
    log_call (Deformer_edit_geometry ''M_body_mesh'' ''L_eye_mesh'') example_scene)"
  by (simp add: string_eval host_eval run_eval utils_eval example_scene_def)

theorem copy_deformers_positional_witness:
  "length [''L_eye_mesh_skinCluster'', ''L_lid_ffd'', ''L_eye_cluster'', ''R_eye_cluster'']
     = length [''{name}_skinCluster'', ''{side}_lid_ffd'', ''{}_eye_cluster'', ''{}_eye_cluster'']
   \<and> expansion_of ''L_eye_mesh'' ''{name}_skinCluster'' ''L_eye_mesh_skinCluster''
   \<and> expansion_of ''L_eye_mesh'' ''{side}_lid_ffd'' ''L_lid_ffd''
   \<and> expansion_of ''L_eye_mesh'' ''{}_eye_cluster'' ''L_eye_cluster''
   \<and> expansion_of ''L_eye_mesh'' ''{}_eye_cluster'' ''R_eye_cluster''"
  using copy_deformers_positional [of "''L_eye_mesh''" "[]" "[''cluster'', ''ffd'']"
      "[''{}_eye_cluster'', ''{side}_lid_ffd'', ''{name}_skinCluster'', ''M_body_mesh'']"
      example_scene
      "[''L_eye_mesh_skinCluster'', ''L_lid_ffd'', ''L_eye_cluster'', ''R_eye_cluster'']"
      "[''{name}_skinCluster'', ''{side}_lid_ffd'', ''{}_eye_cluster'', ''{}_eye_cluster'']"
      "log_call (Deformer_edit_geometry ''M_body_mesh'' ''L_eye_mesh'') example_scene"] ex_copy
  by (simp add: All_less_Suc2)

subsection \<open>Dispatch of a skinCluster\<close>

text \<open>
  C5, amended. For a spec found missing when the stack was scanned, whose kind
  resolves to \<^verbatim>\<open>skinCluster\<close> and whose parameters give joints, the hierarchy flag and
  the envelope: if a node with the resolved name exists when the spec is dispatched
  (the test \<^verbatim>\<open>bind_skincluster\<close> makes is \<^verbatim>\<open>objExists\<close>), the spec's joints are added
  to it as influences and no node is created; otherwise a skinCluster of that name is
  bound to the mesh with the spec's joints and \<^verbatim>\<open>toSelectedBones\<close> the negation of
  the hierarchy flag. In both cases the envelope is then set to the spec's value.
\<close>

theorem skincluster_add_or_bind:
  assumes "find_type (DEFORMER_SUFFIX_ASSOCIATIONS cfg) (last_token deformer) deformer_type
             = Some ''skinCluster''"
    and "map_of deformers key = Some (Some p)"
    and "joints p = Some jnts" and "use_hierarchy p = Some use_hier" and "envelope p = Some env"
  shows "create_missing cfg deformers mesh (key, deformer) deformer_type sc =
     (Inr (Some ''skinCluster''),
      if objExists sc deformer
      then sc\<lparr>calls := calls sc @ [SkinCluster_add_influence deformer jnts,
                                    SetAttr (deformer @ ''.envelope'') env]\<rparr>
      else (create_node ''skinCluster'' deformer [mesh] sc)
             \<lparr>calls := calls sc @ [SkinCluster_bind jnts mesh 1 (\<not> use_hier) deformer,
                                  SetAttr (deformer @ ''.envelope'') env]\<rparr>)"
  using assms
  by (simp add: create_missing_def lookup_key_def subscript_def bind_skincluster_def
      seq_def lift_def call_def ret_def log_call_def create_node_def add_node_def attach_def objExists_def)

theorem skincluster_add_or_bind_witness:
  "create_missing example_cfg [(''{name}_skinCluster'', Some skin_params)] ''M_body_mesh''
     (''{name}_skinCluster'', ''M_body_mesh_skinCluster'') None example_scene =
   (Inr (Some ''skinCluster''),
    (create_node ''skinCluster'' ''M_body_mesh_skinCluster'' [''M_body_mesh''] example_scene)
       \<lparr>calls := [SkinCluster_bind [''M_jaw_jnt''] ''M_body_mesh'' 1 True ''M_body_mesh_skinCluster'',
                  SetAttr ''M_body_mesh_skinCluster.envelope'' 1]\<rparr>)"
  using skincluster_add_or_bind [of example_cfg "''M_body_mesh_skinCluster''" None
      "[(''{name}_skinCluster'', Some skin_params)]" "''{name}_skinCluster''" skin_params
      "[''M_jaw_jnt'']" False 1 "''M_body_mesh''" example_scene]
  by (simp add: example_cfg_def skin_params_def find_type_def string_eval example_scene_def objExists_def)

text \<open>
  C5 as stated fails for the reconciliation as a whole: a skinCluster with the
  resolved name exists before the run (here on another mesh). The scan of the stack
  finds the name, attaches that skinCluster to the target and does not list the spec
  as missing, so the spec is never dispatched: its joints are not added as influences.
\<close>

theorem existing_skincluster_not_dispatched:
  "ls_type skinned_scene ''M_body_mesh_skinCluster'' ''skinCluster'' = [''M_body_mesh_skinCluster'']
   \<and> find_type (DEFORMER_SUFFIX_ASSOCIATIONS example_cfg) (last_token ''M_body_mesh_skinCluster'') None
       = Some ''skinCluster''
   \<and> fst (create_all_deformers example_cfg
            [(''M_body_mesh'', [(''{name}_skinCluster'', Some skin_params)])] skinned_scene)
       = Inr None
   \<and> calls (snd (create_all_deformers example_cfg
            [(''M_body_mesh'', [(''{name}_skinCluster'', Some skin_params)])] skinned_scene))
       = [Deformer_edit_geometry ''M_body_mesh_skinCluster'' ''M_body_mesh'']"
  by (simp add: skinned_scene_def example_cfg_def skin_params_def
      string_eval host_eval run_eval utils_eval build_eval Let_def)

subsection \<open>Side expansion of a target\<close>



subsection \<open>More than one skinCluster on a mesh\<close>

text \<open>
  C6. In the renaming of skinClusters: when the stack of a mesh names a skinCluster
  (one is expected) and more than one skinCluster is found on the mesh, the step
  raises and the scene is as before, so nothing is renamed. The exception is the
  \<open>RuntimeError\<close> of \<^verbatim>\<open>cmds.error\<close> whenever the name of the stack can be expanded,
  and the exception of the expansion otherwise.
\<close>

theorem ambiguous_skincluster_raises:
  assumes "list_deformers sc mesh [''skinCluster''] = Inr (skincluster, def_typ)"
    and "length skincluster > 1"
    and "skincluster_key deformers = Some n0"
  shows "rename_skincluster deformers mesh sc =
     (Inl (case resolve_skincluster_name mesh n0 of Inl e \<Rightarrow> e | Inr n \<Rightarrow> RuntimeError), sc)"
  using assms
  by (cases "resolve_skincluster_name mesh n0")
     (auto simp: rename_skincluster_def seq_def lift_def throw_def)

theorem ambiguous_skincluster_raises_witness:
  "list_deformers two_skin_scene ''M_body_mesh'' [''skinCluster'']
     = Inr ([''skinCluster2'', ''skinCluster1''], [''skinCluster'', ''skinCluster''])
   \<and> skincluster_key [(''M_body_cluster'', None), (''{name}_skinCluster'', Some skin_params)]
     = Some ''{name}_skinCluster''
   \<and> rename_skincluster [(''M_body_cluster'', None), (''{name}_skinCluster'', Some skin_params)]
       ''M_body_mesh'' two_skin_scene = (Inl RuntimeError, two_skin_scene)"
proof -
  have a: "list_deformers two_skin_scene ''M_body_mesh'' [''skinCluster'']
     = Inr ([''skinCluster2'', ''skinCluster1''], [''skinCluster'', ''skinCluster''])"
    by (simp add: list_deformers_def host_eval two_skin_scene_def)
  have b: "length [''skinCluster2'', ''skinCluster1''] > 1" by simp
  have c: "skincluster_key [(''M_body_cluster'', None), (''{name}_skinCluster'', Some skin_params)]
     = Some ''{name}_skinCluster''"
    by (simp add: skincluster_key_def suffix_def)
  have d: "resolve_skincluster_name ''M_body_mesh'' ''{name}_skinCluster'' = Inr ''M_body_mesh_skinCluster''"
    by (simp add: resolve_skincluster_name_def string_eval)
  show ?thesis
    using a c ambiguous_skincluster_raises [OF a b c] d by simp
qed

subsection \<open>A target that does not exist\<close>

text \<open>
  C3. \<^verbatim>\<open>create_all_deformers\<close> on a table whose first target is not in the scene:
  the query for the target's children raises, the run ends there with the scene as it
  was (nothing reported), and the second target, which exists, is never processed;
  alone it gets its cluster. \<^verbatim>\<open>get_meshes\<close> on the same table skips the absent
  target with a message and goes on to the second.
\<close>

theorem missing_target_aborts:
  "\<not> objExists example_scene ''M_ghost_mesh''
   \<and> create_all_deformers example_cfg ghost_data example_scene = (Inl ValueError, example_scene)
   \<and> calls (snd (create_all_deformers example_cfg (tl ghost_data) example_scene)) =
       [Cluster [''M_body_mesh''] ''M_body_cluster'']
   \<and> get_meshes (example_cfg\<lparr>DEFORMERS_STACK := ghost_data\<rparr>) [0, 1] example_scene =
       (Inr [''M_body_mesh''],
        example_scene\<lparr>calls := [Log_info ''M_ghost_mesh does not exist and he is skipped'']\<rparr>)"
  by (simp add: ghost_data_def example_cfg_def example_scene_def
      string_eval host_eval run_eval utils_eval build_eval Let_def)

subsection \<open>A suffix without association\<close>

text \<open>
  C4. \<^verbatim>\<open>create_all_deformers\<close> with a spec whose suffix has no association. When that
  spec is the first one dispatched (the last of its stack), reading the unbound
  \<^verbatim>\<open>deformer_type\<close> raises, and the cluster listed before it is never created. When a
  skinCluster was dispatched before it, the variable still holds \<^verbatim>\<open>skinCluster\<close> and the
  spec is bound as a skinCluster under its own name.
\<close>

theorem unresolvable_kind_not_isolated:
  "last_token ''M_body_foo'' \<notin> assoc_suffix ` set (DEFORMER_SUFFIX_ASSOCIATIONS example_cfg)
   \<and> create_all_deformers example_cfg unresolvable_last_data example_scene
       = (Inl UnboundLocalError, example_scene)
   \<and> fst (create_all_deformers example_cfg leftover_data example_scene)
       = Inr (Some ''skinCluster'')
   \<and> calls (snd (create_all_deformers example_cfg leftover_data example_scene))
       = [SkinCluster_bind [''M_jaw_jnt''] ''M_body_mesh'' 1 True ''M_body_skinCluster'',
          SetAttr ''M_body_skinCluster.envelope'' 1,
          SkinCluster_bind [''M_jaw_jnt''] ''M_body_mesh'' 1 True ''M_body_foo'',
          SetAttr ''M_body_foo.envelope'' 1]
   \<and> (''M_body_foo'', ''skinCluster'')
       \<in> set (nodes (snd (create_all_deformers example_cfg leftover_data example_scene)))"
  by (simp add: unresolvable_last_data_def leftover_data_def skin_params_def example_cfg_def
      example_scene_def string_eval host_eval run_eval utils_eval build_eval Let_def)

subsection \<open>The host graph: what the calls change\<close>

lemma log_call_fields [simp]:
  "nodes (log_call c sc) = nodes sc" "children (log_call c sc) = children sc"
  "shapes (log_call c sc) = shapes sc" "history (log_call c sc) = history sc"
  "selection (log_call c sc) = selection sc" "calls (log_call c sc) = calls sc @ [c]"
  by (simp_all add: log_call_def)

lemma add_node_fields [simp]:
  "shapes (add_node n t sc) = shapes sc" "history (add_node n t sc) = history sc"
  "calls (add_node n t sc) = calls sc"
  "nodes (add_node n t sc) = (if objExists sc n then nodes sc else nodes sc @ [(n, t)])"
  by (simp_all add: add_node_def)

lemma add_child_fields [simp]:
  "shapes (add_child c p sc) = shapes sc" "history (add_child c p sc) = history sc"
  "nodes (add_child c p sc) = nodes sc"
  by (simp_all add: add_child_def)

lemma attach_fields [simp]:
  "shapes (attach d m sc) = shapes sc" "nodes (attach d m sc) = nodes sc"
  "calls (attach d m sc) = calls sc"
  by (simp_all add: attach_def)

lemma fold_attach_fields [simp]:
  "shapes (fold (attach d) ms sc) = shapes sc" "nodes (fold (attach d) ms sc) = nodes sc"
  "calls (fold (attach d) ms sc) = calls sc"
  by (induction ms arbitrary: sc) simp_all

lemma fold_attach_history:
  "history (fold (attach d) ms sc) s =
     (if (\<exists>m \<in> set ms. s \<in> set (shapes sc m)) \<and> d \<notin> set (history sc s)
      then d # history sc s else history sc s)"
proof (induction ms arbitrary: sc)
  case Nil
  then show ?case by simp
next
  case (Cons m ms)
  have h: "history (attach d m sc) s =
      (if s \<in> set (shapes sc m) \<and> d \<notin> set (history sc s) then d # history sc s else history sc s)"
    by (simp add: attach_def)
  show ?case
    using Cons.IH [of "attach d m sc"] h by auto
qed

lemma create_node_fields [simp]:
  "shapes (create_node t n ms sc) = shapes sc"
  "calls (create_node t n ms sc) = calls sc"
  "nodes (create_node t n ms sc) = (if objExists sc n then nodes sc else nodes sc @ [(n, t)])"
  by (simp_all add: create_node_def)

lemma create_node_history:
  "history (create_node t n ms sc) s =
     (if (\<exists>m \<in> set ms. s \<in> set (shapes sc m)) \<and> n \<notin> set (history sc s)
      then n # history sc s else history sc s)"
  by (simp add: create_node_def fold_attach_history)

lemma step_create_node:
  "mesh \<in> set ms \<Longrightarrow> step N n mesh sc (create_node t n ms sc)"
  by (auto simp: step_def create_node_history objExists_def)

lemma step_cong:
  "step N n mesh sc sc1 \<Longrightarrow> nodes sc2 = nodes sc1 \<Longrightarrow> shapes sc2 = shapes sc1
     \<Longrightarrow> history sc2 = history sc1 \<Longrightarrow> step N n mesh sc sc2"
  by (simp add: step_def objExists_def)

lemma step_add_base:
  "step N n mesh sc sc1 \<Longrightarrow> b \<notin> N \<Longrightarrow> step N n mesh sc (add_node b ''transform'' sc1)"
  by (auto simp: step_def objExists_def)

lemma for_each_calls:
  assumes "\<And>x s. apply_cmd (c x) s = s"
  shows "for_each xs () (\<lambda>x _. call (c x)) sc = (Inr (), sc\<lparr>calls := calls sc @ map c xs\<rparr>)"
proof (induction xs arbitrary: sc)
  case Nil
  then show ?case by simp
next
  case (Cons x xs)
  show ?case
    using Cons.IH [of "log_call (c x) sc"] assms
    by (simp add: call_def log_call_def)
qed

subsection \<open>A second run\<close>

lemma objExists_calls [simp]: "objExists (sc\<lparr>calls := cs\<rparr>) = objExists sc"
  by (simp add: objExists_def fun_eq_iff)

lemma attached_calls [simp]: "attached (sc\<lparr>calls := cs\<rparr>) = attached sc"
  by (simp add: attached_def fun_eq_iff)








subsection \<open>Chains only grow in front\<close>

lemma grows_refl [simp]: "grows sc sc"
  by (simp add: grows_def)

































subsection \<open>The chain of a fresh target\<close>

lemma find_type_bound:
  "find_type amap sfx None = Some typ \<Longrightarrow> find_type amap sfx dt = Some typ"
  by (auto simp: find_type_def split: option.splits)


lemma seq_assoc: "seq (seq m f) g = seq m (\<lambda>x. seq (f x) g)"
  by (auto simp: seq_def fun_eq_iff split: prod.splits sum.splits)

lemma seq_result: "m sc = (Inr r, sc1) \<Longrightarrow> seq m f sc = f r sc1"
  by (simp add: seq_def)

lemma create_missing_plain:
  assumes "find_type (DEFORMER_SUFFIX_ASSOCIATIONS cfg) (last_token n) None = Some typ"
    and "typ \<noteq> []" and "typ \<noteq> ''skinCluster''"
    and "map_of deformers k = Some p"
    and "(case p of None \<Rightarrow> Some [mesh]
          | Some d \<Rightarrow> (case source d of None \<Rightarrow> None | Some src \<Rightarrow> Some [src, mesh])) = Some ms"
    and "create_typed cfg typ n ms sc = (Inr r, sc1)"
  shows "create_missing cfg deformers mesh (k, n) dt sc = (Inr (Some typ), sc1)"
proof -
  have ft: "find_type (DEFORMER_SUFFIX_ASSOCIATIONS cfg) (last_token n) dt = Some typ"
    by (rule find_type_bound [OF assms(1)])
  have cd: "create_deformer cfg n ms None (DEFORMER_SUFFIX_ASSOCIATIONS cfg) sc = (Inr (Some r), sc1)"
    using assms(1,2,6) by (simp add: create_deformer_def truthy_def seq_result ret_def)
  show ?thesis
  proof (cases p)
    case None
    then have "ms = [mesh]" using assms(5) by simp
    then show ?thesis
      using ft assms(2,3,4) None cd
      by (simp add: create_missing_def lookup_key_def seq_result ret_def)
  next
    case (Some d)
    then obtain src where src: "source d = Some src" and ms: "ms = [src, mesh]"
      using assms(5) by (auto split: option.splits)
    then show ?thesis
      using ft assms(2,3,4) Some cd
      by (simp add: create_missing_def lookup_key_def subscript_def seq_result ret_def)
  qed
qed

lemma typed_cluster:
  "create_typed cfg ''cluster'' n ms sc =
     (Inr [n], log_call (Cluster ms n) (create_node ''cluster'' n ms sc))"
  by (simp add: create_typed_def ret_def)

lemma typed_ffd:
  "create_typed cfg ''ffd'' n ms sc =
     (Inr [n], log_call (Lattice ms n) (create_node ''ffd'' n ms sc))"
  by (simp add: create_typed_def ret_def)

lemma typed_blendShape:
  "create_typed cfg ''blendShape'' n ms sc =
     (Inr [n], log_call (BlendShape ms n)
        (create_node ''blendShape'' n (if ms = [] then [] else [last ms]) sc))"
  by (simp add: create_typed_def ret_def)

lemma typed_wire:
  "create_typed cfg ''wire'' n [mesh] sc =
     (Inr [n], log_call (Wire mesh [] n) (create_node ''wire'' n [mesh] sc))"
  by (simp add: create_typed_def ret_def item_def)

lemma typed_bend:
  "create_typed cfg ''bend'' n [mesh] sc =
     (Inr [n], log_call (NonLinear mesh n ''bend'') (create_node ''nonLinear'' n [mesh] sc))"
  by (simp add: create_typed_def ret_def item_def)

lemma typed_proximityWrap:
  "create_typed cfg ''proximityWrap'' n [src, mesh] sc =
     (Inr [n], log_call (Create_proximity_wrap [src] [mesh] n)
        (create_node ''proximityWrap'' n [mesh] sc))"
  by (simp add: create_typed_def ret_def item_def)

lemma seq_query:
  "seq (\<lambda>sc. lift (q sc) sc) f sc = (case q sc of Inl e \<Rightarrow> (Inl e, sc) | Inr x \<Rightarrow> f x sc)"
  by (simp add: seq_def lift_def split: sum.splits)

lemma seq_for_each_calls:
  assumes "\<And>x s. apply_cmd (c x) s = s"
  shows "seq (for_each xs () (\<lambda>x _. call (c x))) f sc = f () (sc\<lparr>calls := calls sc @ map c xs\<rparr>)"
  using for_each_calls [of c xs sc, OF assms] by (simp add: seq_def)

lemma typed_shrinkWrap:
  assumes "objExists sc src" and "shapes sc src \<noteq> []"
  shows "\<exists>sc1. create_typed cfg ''shrinkWrap'' n [src, mesh] sc = (Inr [n], sc1)
           \<and> nodes sc1 = nodes (create_node ''shrinkWrap'' n [mesh] sc)
           \<and> shapes sc1 = shapes (create_node ''shrinkWrap'' n [mesh] sc)
           \<and> history sc1 = history (create_node ''shrinkWrap'' n [mesh] sc)"
proof -
  obtain target_shape rest where sh: "listRelatives_shapes sc src = Inr (target_shape # rest)"
    using assms by (cases "shapes sc src") (auto simp: listRelatives_shapes_def)
  have "create_typed cfg ''shrinkWrap'' n [src, mesh] sc = create_shrinkwrap mesh src n [] sc"
    by (simp add: create_typed_def item_def)
  also have "\<dots> = (Inr [n],
      (log_call (Deformer_create [mesh] ''shrinkWrap'' n) (create_node ''shrinkWrap'' n [mesh] sc))
        \<lparr>calls := calls sc @ Deformer_create [mesh] ''shrinkWrap'' n
           # map (\<lambda>pd. SetAttr (n @ ''.'' @ fst pd) (snd pd)) shrinkwrap_parameters
           @ map (\<lambda>oi. ConnectAttr (target_shape @ ''.'' @ fst oi) (n @ ''.'' @ snd oi))
               shrinkwrap_connections\<rparr>)"
    unfolding create_shrinkwrap_def
    by (simp add: seq_query sh seq_for_each_calls ret_def log_call_def)
  finally show ?thesis by simp
qed

lemma typed_wrap:
  assumes "src @ ''Base'' \<noteq> n"
    and "objExists sc (src @ ''Base'') \<longrightarrow> (src @ ''Base'', ''transform'') \<in> set (nodes sc)"
  shows "\<exists>sc1. create_typed cfg ''wrap'' n [src, mesh] sc = (Inr [n], sc1)
           \<and> nodes sc1 = nodes (add_node (src @ ''Base'') ''transform'' (create_node ''wrap'' n [mesh] sc))
           \<and> shapes sc1 = shapes (create_node ''wrap'' n [mesh] sc)
           \<and> history sc1 = history (create_node ''wrap'' n [mesh] sc)"
proof -
  define b where "b = src @ ''Base''"
  define sc3 where "sc3 = log_call (SetAttr (n @ ''.autoWeightThreshold'') 1)
               (log_call (SetAttr (n @ ''.maxDistance'') 1)
                 (log_call (Create_wrap src mesh n)
                   (add_node b ''transform'' (create_node ''wrap'' n [mesh] sc))))"
  have f3: "nodes sc3 = nodes (add_node b ''transform'' (create_node ''wrap'' n [mesh] sc))"
    "shapes sc3 = shapes sc" "history sc3 = history (create_node ''wrap'' n [mesh] sc)"
    by (simp_all add: sc3_def)
  have "(b, ''transform'') \<in> set (nodes sc3)"
    using assms by (auto simp: f3 objExists_def b_def)
  then have "b \<in> set (ls_prefix_type sc3 b ''transform'')"
    by (force simp: ls_prefix_type_def)
  then obtain x xs where ls: "ls_prefix_type sc3 b ''transform'' = x # xs"
    by (cases "ls_prefix_type sc3 b ''transform''") auto
  have "create_typed cfg ''wrap'' n [src, mesh] sc =
          seq (\<lambda>sc. (case ls_prefix_type sc b ''transform'' of
                     [] \<Rightarrow> throw IndexError
                   | b # bs \<Rightarrow> ret (last (b # bs))) sc)
            (\<lambda>base. seq (call (Parent base (GROUPS_HIERARCHY_tool cfg))) (\<lambda>_. ret [n])) sc3"
    by (simp add: create_typed_def item_def sc3_def b_def)
  also have "\<dots> = (Inr [n], log_call (Parent (last (x # xs)) (GROUPS_HIERARCHY_tool cfg))
                      (add_child (last (x # xs)) (GROUPS_HIERARCHY_tool cfg) sc3))"
    by (simp add: seq_def ls ret_def call_def)
  finally show ?thesis
    by (simp add: f3 b_def)
qed


lemma create_missing_skincluster:
  assumes "find_type (DEFORMER_SUFFIX_ASSOCIATIONS cfg) (last_token deformer) deformer_type
             = Some ''skinCluster''"
    and "map_of deformers key = Some (Some p)"
    and "joints p = Some jnts" and "use_hierarchy p = Some use_hier" and "envelope p = Some env"
  shows "create_missing cfg deformers mesh (key, deformer) deformer_type sc =
     (Inr (Some ''skinCluster''),
      if objExists sc deformer
      then sc\<lparr>calls := calls sc @ [SkinCluster_add_influence deformer jnts,
                                    SetAttr (deformer @ ''.envelope'') env]\<rparr>
      else (create_node ''skinCluster'' deformer [mesh] sc)
             \<lparr>calls := calls sc @ [SkinCluster_bind jnts mesh 1 (\<not> use_hier) deformer,
                                  SetAttr (deformer @ ''.envelope'') env]\<rparr>)"
  using assms
  by (simp add: create_missing_def lookup_key_def subscript_def bind_skincluster_def
      seq_def lift_def call_def ret_def log_call_def)

lemma step_plain:
  assumes "find_type (DEFORMER_SUFFIX_ASSOCIATIONS cfg) (last_token n) None = Some typ"
    and "typ \<noteq> []" and "typ \<noteq> ''skinCluster''"
    and "map_of deformers k = Some p"
    and "(case p of None \<Rightarrow> Some [mesh]
          | Some d \<Rightarrow> (case source d of None \<Rightarrow> None | Some src \<Rightarrow> Some [src, mesh])) = Some ms"
    and "create_typed cfg typ n ms sc = (Inr r, sc1)"
    and "step N n mesh sc sc1"
  shows "\<exists>dt' sc'. create_missing cfg deformers mesh (k, n) dt sc = (Inr dt', sc')
           \<and> step N n mesh sc sc'"
  using create_missing_plain [OF assms(1-6)] assms(7) by blast

lemma create_missing_step:
  assumes mo: "map_of deformers k = Some p"
    and dt: "deforms_target cfg sc N p n"
    and nN: "n \<in> N"
    and ne: "\<not> objExists sc n"
  shows "\<exists>dt' sc'. create_missing cfg deformers mesh (k, n) dt sc = (Inr dt', sc')
           \<and> step N n mesh sc sc'"
proof -
  from dt obtain kind where
    ft: "find_type (DEFORMER_SUFFIX_ASSOCIATIONS cfg) (last_token n) None = Some kind"
    by (auto simp: deforms_target_def split: option.splits)
  from dt ft have cond:
    "if kind = ''skinCluster'' then
            (case p of
               None \<Rightarrow> False
             | Some d \<Rightarrow> joints d \<noteq> None \<and> use_hierarchy d \<noteq> None \<and> envelope d \<noteq> None)
          else if kind = ''cluster'' \<or> kind = ''ffd'' \<or> kind = ''blendShape'' then
            (case p of None \<Rightarrow> True | Some d \<Rightarrow> source d \<noteq> None)
          else if kind = ''wire'' \<or> kind = ''bend'' then p = None
          else if kind = ''proximityWrap'' then
            (case p of None \<Rightarrow> False | Some d \<Rightarrow> source d \<noteq> None)
          else if kind = ''wrap'' then
            (case p of
               None \<Rightarrow> False
             | Some d \<Rightarrow>
                 (case source d of
                    None \<Rightarrow> False
                  | Some src \<Rightarrow>
                      src @ ''Base'' \<notin> N
                      \<and> (objExists sc (src @ ''Base'')
                           \<longrightarrow> (src @ ''Base'', ''transform'') \<in> set (nodes sc))))
          else if kind = ''shrinkWrap'' then
            (case p of
               None \<Rightarrow> False
             | Some d \<Rightarrow>
                 (case source d of
                    None \<Rightarrow> False
                  | Some src \<Rightarrow> objExists sc src \<and> shapes sc src \<noteq> []))
          else False"
    by (simp add: deforms_target_def)
  consider (skin) "kind = ''skinCluster''"
    | (both) "kind = ''cluster'' \<or> kind = ''ffd'' \<or> kind = ''blendShape''"
    | (first) "kind = ''wire'' \<or> kind = ''bend''"
    | (prox) "kind = ''proximityWrap''"
    | (wrap) "kind = ''wrap''"
    | (shrink) "kind = ''shrinkWrap''"
    using cond by (auto split: if_splits)
  then show ?thesis
  proof cases
    case skin
    with cond obtain d jnts uh env where p: "p = Some d" and j: "joints d = Some jnts"
      and u: "use_hierarchy d = Some uh" and e: "envelope d = Some env"
      by (auto split: option.splits)
    have f: "find_type (DEFORMER_SUFFIX_ASSOCIATIONS cfg) (last_token n) dt = Some ''skinCluster''"
      using find_type_bound [OF ft] skin by simp
    have "step N n mesh sc ((create_node ''skinCluster'' n [mesh] sc)
             \<lparr>calls := calls sc @ [SkinCluster_bind jnts mesh 1 (\<not> uh) n,
                                  SetAttr (n @ ''.envelope'') env]\<rparr>)"
      by (rule step_cong [OF step_create_node [of mesh "[mesh]"]]) simp_all
    then show ?thesis
      using create_missing_skincluster [OF f mo [unfolded p] j u e, of mesh sc] ne by simp
  next
    case both
    then have t: "kind \<noteq> []" "kind \<noteq> ''skinCluster''" by auto
    from both cond obtain ms where
      ms: "(case p of None \<Rightarrow> Some [mesh]
          | Some d \<Rightarrow> (case source d of None \<Rightarrow> None | Some src \<Rightarrow> Some [src, mesh])) = Some ms"
      and mm: "mesh \<in> set ms" and lm: "ms \<noteq> [] \<and> last ms = mesh"
      by (auto split: option.splits if_splits)
    from both obtain r sc1 where ty: "create_typed cfg kind n ms sc = (Inr r, sc1)"
      and st: "step N n mesh sc sc1"
    proof (elim disjE)
      assume "kind = ''cluster''"
      then show ?thesis
        using that typed_cluster [of cfg n ms sc]
          step_cong [OF step_create_node [OF mm, of N n sc "''cluster''"]] by simp
    next
      assume "kind = ''ffd''"
      then show ?thesis
        using that typed_ffd [of cfg n ms sc]
          step_cong [OF step_create_node [OF mm, of N n sc "''ffd''"]] by simp
    next
      assume "kind = ''blendShape''"
      then show ?thesis
        using that typed_blendShape [of cfg n ms sc] lm
          step_cong [OF step_create_node [of mesh "[mesh]" N n sc "''blendShape''"]] by simp
    qed
    show ?thesis
      by (rule step_plain [OF ft t mo ms ty st])
  next
    case first
    then have t: "kind \<noteq> []" "kind \<noteq> ''skinCluster''" by auto
    from first cond have p: "p = None" by (auto split: if_splits)
    then have ms: "(case p of None \<Rightarrow> Some [mesh]
          | Some d \<Rightarrow> (case source d of None \<Rightarrow> None | Some src \<Rightarrow> Some [src, mesh])) = Some [mesh]"
      by simp
    from first obtain r sc1 where ty: "create_typed cfg kind n [mesh] sc = (Inr r, sc1)"
      and st: "step N n mesh sc sc1"
    proof (elim disjE)
      assume "kind = ''wire''"
      then show ?thesis
        using that typed_wire [of cfg n mesh sc]
          step_cong [OF step_create_node [of mesh "[mesh]" N n sc "''wire''"]] by simp
    next
      assume "kind = ''bend''"
      then show ?thesis
        using that typed_bend [of cfg n mesh sc]
          step_cong [OF step_create_node [of mesh "[mesh]" N n sc "''nonLinear''"]] by simp
    qed
    show ?thesis
      by (rule step_plain [OF ft t mo ms ty st])
  next
    case prox
    then have t: "kind \<noteq> []" "kind \<noteq> ''skinCluster''" by auto
    from prox cond obtain d src where p: "p = Some d" and s: "source d = Some src"
      by (auto split: option.splits)
    then have ms: "(case p of None \<Rightarrow> Some [mesh]
          | Some d \<Rightarrow> (case source d of None \<Rightarrow> None | Some src \<Rightarrow> Some [src, mesh])) = Some [src, mesh]"
      by simp
    have ty: "create_typed cfg kind n [src, mesh] sc =
       (Inr [n], log_call (Create_proximity_wrap [src] [mesh] n)
          (create_node ''proximityWrap'' n [mesh] sc))"
      using prox typed_proximityWrap by simp
    have st: "step N n mesh sc (log_call (Create_proximity_wrap [src] [mesh] n)
          (create_node ''proximityWrap'' n [mesh] sc))"
      by (rule step_cong [OF step_create_node [of mesh "[mesh]"]]) simp_all
    show ?thesis
      by (rule step_plain [OF ft t mo ms ty st])
  next
    case wrap
    then have t: "kind \<noteq> []" "kind \<noteq> ''skinCluster''" by auto
    from wrap cond obtain d src where p: "p = Some d" and s: "source d = Some src"
      and b: "src @ ''Base'' \<notin> N"
      and bt: "objExists sc (src @ ''Base'') \<longrightarrow> (src @ ''Base'', ''transform'') \<in> set (nodes sc)"
      by (auto split: option.splits)
    then have ms: "(case p of None \<Rightarrow> Some [mesh]
          | Some d \<Rightarrow> (case source d of None \<Rightarrow> None | Some src \<Rightarrow> Some [src, mesh])) = Some [src, mesh]"
      by simp
    have bn: "src @ ''Base'' \<noteq> n" using b nN by auto
    from typed_wrap [OF bn bt, of cfg mesh] obtain sc1 where
      ty: "create_typed cfg ''wrap'' n [src, mesh] sc = (Inr [n], sc1)"
      and f: "nodes sc1 = nodes (add_node (src @ ''Base'') ''transform'' (create_node ''wrap'' n [mesh] sc))"
        "shapes sc1 = shapes (create_node ''wrap'' n [mesh] sc)"
        "history sc1 = history (create_node ''wrap'' n [mesh] sc)"
      by blast
    have "step N n mesh sc (add_node (src @ ''Base'') ''transform'' (create_node ''wrap'' n [mesh] sc))"
      by (rule step_add_base [OF step_create_node b]) simp
    then have st: "step N n mesh sc sc1"
      by (rule step_cong) (simp_all add: f)
    show ?thesis
      by (rule step_plain [OF ft t mo ms ty [folded wrap] st])
  next
    case shrink
    then have t: "kind \<noteq> []" "kind \<noteq> ''skinCluster''" by auto
    from shrink cond obtain d src where p: "p = Some d" and s: "source d = Some src"
      and ex: "objExists sc src" and sh: "shapes sc src \<noteq> []"
      by (auto split: option.splits)
    then have ms: "(case p of None \<Rightarrow> Some [mesh]
          | Some d \<Rightarrow> (case source d of None \<Rightarrow> None | Some src \<Rightarrow> Some [src, mesh])) = Some [src, mesh]"
      by simp
    from typed_shrinkWrap [OF ex sh, of cfg n mesh] obtain sc1 where
      ty: "create_typed cfg ''shrinkWrap'' n [src, mesh] sc = (Inr [n], sc1)"
      and f: "nodes sc1 = nodes (create_node ''shrinkWrap'' n [mesh] sc)"
        "shapes sc1 = shapes (create_node ''shrinkWrap'' n [mesh] sc)"
        "history sc1 = history (create_node ''shrinkWrap'' n [mesh] sc)"
      by blast
    have st: "step N n mesh sc sc1"
      by (rule step_cong [OF step_create_node [of mesh "[mesh]" N n sc "''shrinkWrap''"]])
         (simp_all add: f)
    show ?thesis
      by (rule step_plain [OF ft t mo ms ty [folded shrink] st])
  qed
qed


lemma deforms_target_step:
  assumes st: "step N n mesh sc sc'" and nN: "n \<in> N"
    and dt: "deforms_target cfg sc N p m"
  shows "deforms_target cfg sc' N p m"
proof -
  from dt obtain kind where
    ft: "find_type (DEFORMER_SUFFIX_ASSOCIATIONS cfg) (last_token m) None = Some kind"
    by (auto simp: deforms_target_def split: option.splits)
  have ex: "objExists sc x \<Longrightarrow> objExists sc' x" for x
    using st by (auto simp: step_def objExists_def)
  have sh: "shapes sc' = shapes sc"
    using st by (simp add: step_def)
  consider (wrap) "kind = ''wrap''" | (shrink) "kind = ''shrinkWrap''"
    | (other) "kind \<noteq> ''wrap''" "kind \<noteq> ''shrinkWrap''"
    by blast
  then show ?thesis
  proof cases
    case wrap
    with dt ft obtain d src where p: "p = Some d" and s: "source d = Some src"
      and b: "src @ ''Base'' \<notin> N"
      and bt: "objExists sc (src @ ''Base'') \<longrightarrow> (src @ ''Base'', ''transform'') \<in> set (nodes sc)"
      by (auto simp: deforms_target_def split: option.splits)
    have "(src @ ''Base'', ''transform'') \<in> set (nodes sc')" if "objExists sc' (src @ ''Base'')"
    proof -
      from that obtain t where t: "(src @ ''Base'', t) \<in> set (nodes sc')"
        by (auto simp: objExists_def)
      then have "(src @ ''Base'', t) \<in> set (nodes sc) \<or> src @ ''Base'' = n \<or> t = ''transform''"
        using st by (auto simp: step_def)
      moreover have "src @ ''Base'' \<noteq> n" using b nN by auto
      moreover have "(src @ ''Base'', t) \<in> set (nodes sc) \<Longrightarrow> (src @ ''Base'', ''transform'') \<in> set (nodes sc')"
        using bt st by (force simp: step_def objExists_def)
      ultimately show ?thesis using t by auto
    qed
    then show ?thesis
      using wrap ft p s b by (simp add: deforms_target_def)
  next
    case shrink
    with dt ft obtain d src where p: "p = Some d" and s: "source d = Some src"
      and e: "objExists sc src" and h: "shapes sc src \<noteq> []"
      by (auto simp: deforms_target_def split: option.splits)
    then show ?thesis
      using shrink ft ex [OF e] sh by (simp add: deforms_target_def)
  next
    case other
    then show ?thesis
      using dt ft by (auto simp: deforms_target_def split: if_splits)
  qed
qed

lemma create_loop:
  assumes "distinct (map snd ps)" and "snd ` set ps \<subseteq> N"
    and "\<forall>kn \<in> set ps. \<not> objExists sc (snd kn)
           \<and> (\<exists>p. map_of deformers (fst kn) = Some p \<and> deforms_target cfg sc N p (snd kn))"
    and "\<forall>s \<in> set (shapes sc mesh). \<forall>n \<in> snd ` set ps. n \<notin> set (history sc s)"
  shows "\<exists>dt' sc'. for_each ps dt (create_missing cfg deformers mesh) sc = (Inr dt', sc')
           \<and> (\<forall>s \<in> set (shapes sc mesh). history sc' s = rev (map snd ps) @ history sc s)"
  using assms
proof (induction ps arbitrary: sc dt)
  case Nil
  then show ?case by simp
next
  case (Cons kn ps)
  obtain k n where kn: "kn = (k, n)" by (cases kn)
  from Cons.prems(3) kn obtain p where mo: "map_of deformers k = Some p"
    and dfm: "deforms_target cfg sc N p n" and ne: "\<not> objExists sc n"
    by auto
  have nN: "n \<in> N" using Cons.prems(2) kn by auto
  from create_missing_step [OF mo dfm nN ne, of mesh dt] obtain dt1 sc1 where
    run: "create_missing cfg deformers mesh (k, n) dt sc = (Inr dt1, sc1)"
    and st: "step N n mesh sc sc1"
    by blast
  have sh: "shapes sc1 = shapes sc" using st by (simp add: step_def)
  have h1: "history sc1 s = n # history sc s" if "s \<in> set (shapes sc mesh)" for s
    using st that Cons.prems(4) kn by (auto simp: step_def)
  have 1: "distinct (map snd ps)" using Cons.prems(1) by simp
  have 2: "snd ` set ps \<subseteq> N" using Cons.prems(2) by auto
  have 3: "\<forall>kn' \<in> set ps. \<not> objExists sc1 (snd kn')
           \<and> (\<exists>p. map_of deformers (fst kn') = Some p \<and> deforms_target cfg sc1 N p (snd kn'))"
  proof
    fix kn' assume m: "kn' \<in> set ps"
    then have a: "\<not> objExists sc (snd kn')" and b: "snd kn' \<noteq> n" and c: "snd kn' \<in> N"
      using Cons.prems(1,2,3) kn by auto
    have "\<not> objExists sc1 (snd kn')"
    proof
      assume "objExists sc1 (snd kn')"
      then obtain t where t: "(snd kn', t) \<in> set (nodes sc1)"
        by (auto simp: objExists_def)
      then have "(snd kn', t) \<in> set (nodes sc) \<or> snd kn' = n \<or> snd kn' \<notin> N"
        using st by (auto simp: step_def)
      then show False
        using a b c by (force simp: objExists_def)
    qed
    moreover from m Cons.prems(3) obtain p' where
      "map_of deformers (fst kn') = Some p'" "deforms_target cfg sc N p' (snd kn')"
      by auto
    ultimately show "\<not> objExists sc1 (snd kn')
           \<and> (\<exists>p. map_of deformers (fst kn') = Some p \<and> deforms_target cfg sc1 N p (snd kn'))"
      using deforms_target_step [OF st nN] by blast
  qed
  have 4: "\<forall>s \<in> set (shapes sc1 mesh). \<forall>m \<in> snd ` set ps. m \<notin> set (history sc1 s)"
    using Cons.prems(1,4) kn h1 sh by auto
  from Cons.IH [OF 1 2 3 4, of dt1] obtain dt' sc' where
    r: "for_each ps dt1 (create_missing cfg deformers mesh) sc1 = (Inr dt', sc')"
    and h: "\<forall>s \<in> set (shapes sc1 mesh). history sc' s = rev (map snd ps) @ history sc1 s"
    by blast
  have "for_each (kn # ps) dt (create_missing cfg deformers mesh) sc = (Inr dt', sc')"
    using run r kn by simp
  moreover have "\<forall>s \<in> set (shapes sc mesh). history sc' s = rev (map snd (kn # ps)) @ history sc s"
    using h h1 sh kn by simp
  ultimately show ?case by blast
qed

lemma copy_fresh_names:
  assumes "\<forall>d \<in> set ds. \<not> objExists sc d"
  shows "for_each ds v (copy_one mesh k) sc = (Inr (fst v @ ds, snd v @ map (\<lambda>d. k) ds), sc)"
  using assms
  by (induction ds arbitrary: v) (simp_all add: copy_one_eq)

lemma copy_fresh_keys:
  assumes "\<forall>k \<in> set ks. \<exists>ds. resolve_names mesh k = Inr ds"
    and "\<forall>d \<in> set (names_of mesh ks). \<not> objExists sc d"
  shows "for_each ks v
           (\<lambda>deformer v. seq (lift (resolve_names mesh deformer))
              (\<lambda>deformers. for_each deformers v (copy_one mesh deformer))) sc =
         (Inr (fst v @ map snd (pairs_of mesh ks), snd v @ map fst (pairs_of mesh ks)), sc)"
  using assms
proof (induction ks arbitrary: v)
  case Nil
  then show ?case by (simp add: pairs_of_def)
next
  case (Cons k ks)
  then obtain ds where ds: "resolve_names mesh k = Inr ds" by auto
  have fresh: "\<forall>d \<in> set ds. \<not> objExists sc d"
    using Cons.prems(2) ds by (simp add: names_of_def)
  have rest: "\<forall>d \<in> set (names_of mesh ks). \<not> objExists sc d"
    using Cons.prems(2) by (simp add: names_of_def)
  have 1: "seq (lift (resolve_names mesh k))
              (\<lambda>deformers. for_each deformers v (copy_one mesh k)) sc
           = (Inr (fst v @ ds, snd v @ map (\<lambda>d. k) ds), sc)"
    using copy_fresh_names [OF fresh] by (simp add: ds)
  show ?case
    using Cons.IH [OF _ rest, of "(fst v @ ds, snd v @ map (\<lambda>d. k) ds)"] Cons.prems(1) 1
    by (simp add: pairs_of_def ds comp_def)
qed

lemma names_of_pairs: "map snd (pairs_of mesh ks) = names_of mesh ks"
  by (induction ks) (auto simp: pairs_of_def names_of_def comp_def split: sum.splits)

lemma set_names_of_rev: "set (names_of mesh (rev ks)) = set (names_of mesh ks)"
  by (auto simp: names_of_def)

lemma set_pairs_of_rev: "set (pairs_of mesh (rev ks)) = set (pairs_of mesh ks)"
  by (auto simp: pairs_of_def)

lemma rev_names_of_rev: "rev (names_of mesh (rev ks)) = chain_of mesh ks"
proof -
  have "rev \<circ> (\<lambda>k. case resolve_names mesh k of Inl e \<Rightarrow> [] | Inr ds \<Rightarrow> ds)
      = (\<lambda>k. case resolve_names mesh k of Inl e \<Rightarrow> [] | Inr ds \<Rightarrow> rev ds)"
    by (auto simp: fun_eq_iff split: sum.splits)
  then show ?thesis
    by (simp add: names_of_def chain_of_def rev_concat rev_map)
qed

lemma set_chain_of: "set (chain_of mesh ks) = set (names_of mesh ks)"
  by (auto simp: chain_of_def names_of_def split: sum.splits)

lemma distinct_chain_of: "distinct (chain_of mesh ks) = distinct (names_of mesh ks)"
proof (induction ks)
  case Nil
  then show ?case by (simp add: chain_of_def names_of_def)
next
  case (Cons k ks)
  have c: "chain_of mesh (k # ks) =
      (case resolve_names mesh k of Inl e \<Rightarrow> [] | Inr ds \<Rightarrow> rev ds) @ chain_of mesh ks"
    and n: "names_of mesh (k # ks) =
      (case resolve_names mesh k of Inl e \<Rightarrow> [] | Inr ds \<Rightarrow> ds) @ names_of mesh ks"
    by (simp_all add: chain_of_def names_of_def)
  show ?case
    using Cons.IH set_chain_of [of mesh ks]
    by (cases "resolve_names mesh k") (simp_all add: c n)
qed

lemma fst_pairs_of: "fst ` set (pairs_of mesh ks) \<subseteq> set ks"
  by (auto simp: pairs_of_def split: sum.splits)

text \<open>
  C2, amended. For a target mesh with no deformers in its chains, a stack that is not
  empty, whose keys all expand, to names that are distinct and of which none exists
  anywhere in the scene, and whose specs each deform the target when created:
  \<^verbatim>\<open>copy_deformers\<close> finds every name missing and lists them by walking the stack in
  reverse, the reconciliation returns, and afterwards each chain of the mesh lists the
  deformers in the order of the stack (the two names of a side-templated key as R, L).
\<close>

theorem fresh_target_chain_in_spec_order:
  assumes "deformers \<noteq> []"
    and "\<forall>key \<in> set (map fst deformers). \<exists>ds. resolve_names mesh key = Inr ds"
    and "distinct (names_of mesh (map fst deformers))"
    and "\<forall>d \<in> set (names_of mesh (map fst deformers)). \<not> objExists sc d"
    and "\<forall>kd \<in> set (pairs_of mesh (map fst deformers)).
           \<exists>p. map_of deformers (fst kd) = Some p
              \<and> deforms_target cfg sc (set (names_of mesh (map fst deformers))) p (snd kd)"
    and "\<forall>s \<in> set (shapes sc mesh). history sc s = []"
  shows "copy_deformers mesh [] [''cluster'', ''ffd''] (map fst deformers) sc =
           (Inr (names_of mesh (rev (map fst deformers)),
                 map fst (pairs_of mesh (rev (map fst deformers)))), sc)
       \<and> (\<exists>dt sc'. reconcile cfg deformers mesh deformer_type sc = (Inr dt, sc')
             \<and> (\<forall>s \<in> set (shapes sc mesh). history sc' s = chain_of mesh (map fst deformers)))"
proof -
  let ?ks = "map fst deformers"
  let ?ps = "pairs_of mesh (rev ?ks)"
  have r: "\<forall>k \<in> set (rev ?ks). \<exists>ds. resolve_names mesh k = Inr ds"
    using assms(2) by simp
  have f: "\<forall>d \<in> set (names_of mesh (rev ?ks)). \<not> objExists sc d"
    using assms(4) by (simp only: set_names_of_rev) 
  have c: "copy_deformers mesh [] [''cluster'', ''ffd''] ?ks sc =
             (Inr (names_of mesh (rev ?ks), map fst ?ps), sc)"
    using copy_fresh_keys [OF r f, of "([], [])"] assms(1)
    by (simp add: copy_deformers_def copy_stack_def names_of_pairs)
  have z: "zip (map fst ?ps) (names_of mesh (rev ?ks)) = ?ps"
    by (simp add: names_of_pairs [symmetric] zip_map_fst_snd)
  have 1: "distinct (map snd ?ps)"
  proof -
    have "distinct (rev (names_of mesh (rev ?ks)))"
      using assms(3) by (simp only: rev_names_of_rev distinct_chain_of)
    then show ?thesis
      by (simp add: names_of_pairs)
  qed
  have 2: "snd ` set ?ps \<subseteq> set (names_of mesh ?ks)"
    using names_of_pairs [of mesh "rev ?ks"] set_names_of_rev [of mesh ?ks]
    by (metis set_map subset_refl)
  have 3: "\<forall>kn \<in> set ?ps. \<not> objExists sc (snd kn)
           \<and> (\<exists>p. map_of deformers (fst kn) = Some p
                  \<and> deforms_target cfg sc (set (names_of mesh ?ks)) p (snd kn))"
  proof
    fix kn assume m: "kn \<in> set ?ps"
    then have "snd kn \<in> set (names_of mesh ?ks)" using 2 by auto
    moreover have "kn \<in> set (pairs_of mesh ?ks)"
      using m by (simp only: set_pairs_of_rev)
    ultimately show "\<not> objExists sc (snd kn)
           \<and> (\<exists>p. map_of deformers (fst kn) = Some p
                  \<and> deforms_target cfg sc (set (names_of mesh ?ks)) p (snd kn))"
      using assms(4,5) by blast
  qed
  have 4: "\<forall>s \<in> set (shapes sc mesh). \<forall>n \<in> snd ` set ?ps. n \<notin> set (history sc s)"
    using assms(6) by simp
  from create_loop [OF 1 2 3 4, of deformer_type] obtain dt sc' where
    l: "for_each ?ps deformer_type (create_missing cfg deformers mesh) sc = (Inr dt, sc')"
    and h: "\<forall>s \<in> set (shapes sc mesh). history sc' s = rev (map snd ?ps) @ history sc s"
    by blast
  have "reconcile cfg deformers mesh deformer_type sc = (Inr dt, sc')"
    using c z l by (simp add: reconcile_def seq_def)
  moreover have "\<forall>s \<in> set (shapes sc mesh). history sc' s = chain_of mesh ?ks"
    using h assms(6) by (simp add: names_of_pairs rev_names_of_rev)
  ultimately show ?thesis
    using c by blast
qed

text \<open>
  C2 as stated fails: the target has no deformers, but the second of the three names
  of its stack exists on another mesh. It is attached while the stack is scanned,
  before the two missing ones are created, and ends last in the chain.
\<close>

theorem chain_order_broken_by_existing:
  "history shared_scene ''M_head_meshShape'' = []
   \<and> fst (reconcile example_cfg head_stack ''M_head_mesh'' None shared_scene) = Inr (Some ''cluster'')
   \<and> history (snd (reconcile example_cfg head_stack ''M_head_mesh'' None shared_scene))
        ''M_head_meshShape'' = [''M_brow_cluster'', ''M_nose_cluster'', ''M_jaw_cluster'']
   \<and> history (snd (reconcile example_cfg head_stack ''M_head_mesh'' None shared_scene))
        ''M_head_meshShape'' \<noteq> map fst head_stack"
  by (simp add: shared_scene_def head_stack_def example_cfg_def
      string_eval host_eval run_eval utils_eval build_eval Let_def)

subsection \<open>The fresh target of the example\<close>

lemma example_stack_names:
  "resolve_names ''M_body_mesh'' ''M_body_cluster'' = Inr [''M_body_cluster'']"
  "resolve_names ''M_body_mesh'' ''M_body_ffd'' = Inr [''M_body_ffd'']"
  "resolve_names ''M_body_mesh'' ''{name}_skinCluster'' = Inr [''M_body_mesh_skinCluster'']"
  by (simp_all add: resolve_names_def string_eval)

theorem fresh_target_chain_in_spec_order_witness:
  "history example_scene ''M_body_meshShape'' = []
   \<and> \<not> objExists example_scene ''M_body_cluster''
   \<and> \<not> objExists example_scene ''M_body_ffd''
   \<and> \<not> objExists example_scene ''M_body_mesh_skinCluster''
   \<and> fst (copy_deformers ''M_body_mesh'' [] [''cluster'', ''ffd''] (map fst example_stack)
            example_scene)
       = Inr ([''M_body_mesh_skinCluster'', ''M_body_ffd'', ''M_body_cluster''],
              [''{name}_skinCluster'', ''M_body_ffd'', ''M_body_cluster''])
   \<and> history (snd example_first_run) ''M_body_meshShape'' =
       [''M_body_cluster'', ''M_body_ffd'', ''M_body_mesh_skinCluster'']"
proof -
  have nm: "names_of ''M_body_mesh'' (map fst example_stack) =
      [''M_body_cluster'', ''M_body_ffd'', ''M_body_mesh_skinCluster'']"
    and ch: "chain_of ''M_body_mesh'' (map fst example_stack) =
      [''M_body_cluster'', ''M_body_ffd'', ''M_body_mesh_skinCluster'']"
    and nr: "names_of ''M_body_mesh'' (rev (map fst example_stack)) =
      [''M_body_mesh_skinCluster'', ''M_body_ffd'', ''M_body_cluster'']"
    and ps: "pairs_of ''M_body_mesh'' (map fst example_stack) =
      [(''M_body_cluster'', ''M_body_cluster''), (''M_body_ffd'', ''M_body_ffd''),
       (''{name}_skinCluster'', ''M_body_mesh_skinCluster'')]"
    and pr: "pairs_of ''M_body_mesh'' (rev (map fst example_stack)) =
      [(''{name}_skinCluster'', ''M_body_mesh_skinCluster''), (''M_body_ffd'', ''M_body_ffd''),
       (''M_body_cluster'', ''M_body_cluster'')]"
    by (simp_all add: names_of_def chain_of_def pairs_of_def example_stack_def example_stack_names)
  have 1: "example_stack \<noteq> []"
    by (simp add: example_stack_def)
  have 2: "\<forall>key \<in> set (map fst example_stack). \<exists>ds. resolve_names ''M_body_mesh'' key = Inr ds"
    by (simp add: example_stack_def example_stack_names)
  have 3: "distinct (names_of ''M_body_mesh'' (map fst example_stack))"
    by (simp add: nm)
  have ex: "\<not> objExists example_scene ''M_body_cluster''"
    "\<not> objExists example_scene ''M_body_ffd''"
    "\<not> objExists example_scene ''M_body_mesh_skinCluster''"
    by (simp_all add: objExists_def example_scene_def)
  have 4: "\<forall>d \<in> set (names_of ''M_body_mesh'' (map fst example_stack)). \<not> objExists example_scene d"
    using ex by (simp add: nm)
  have d1: "deforms_target example_cfg example_scene
              (set (names_of ''M_body_mesh'' (map fst example_stack))) None ''M_body_cluster''"
    and d2: "deforms_target example_cfg example_scene
              (set (names_of ''M_body_mesh'' (map fst example_stack))) None ''M_body_ffd''"
    and d3: "deforms_target example_cfg example_scene
              (set (names_of ''M_body_mesh'' (map fst example_stack))) (Some skin_params)
              ''M_body_mesh_skinCluster''"
    by (simp_all add: deforms_target_def example_cfg_def find_type_def string_eval skin_params_def)
  have 5: "\<forall>kd \<in> set (pairs_of ''M_body_mesh'' (map fst example_stack)).
           \<exists>p. map_of example_stack (fst kd) = Some p
              \<and> deforms_target example_cfg example_scene
                   (set (names_of ''M_body_mesh'' (map fst example_stack))) p (snd kd)"
    unfolding ps using d1 d2 d3 by (simp add: example_stack_def)
  have h0: "history example_scene ''M_body_meshShape'' = []"
    by (simp add: example_scene_def)
  have 6: "\<forall>s \<in> set (shapes example_scene ''M_body_mesh''). history example_scene s = []"
    by (simp add: example_scene_def)
  have sh: "''M_body_meshShape'' \<in> set (shapes example_scene ''M_body_mesh'')"
    by (simp add: example_scene_def)
  from fresh_target_chain_in_spec_order [OF 1 2 3 4 5 6, of None]
  have c: "copy_deformers ''M_body_mesh'' [] [''cluster'', ''ffd''] (map fst example_stack)
             example_scene =
           (Inr (names_of ''M_body_mesh'' (rev (map fst example_stack)),
                 map fst (pairs_of ''M_body_mesh'' (rev (map fst example_stack)))), example_scene)"
    and r: "\<exists>dt sc'. example_first_run = (Inr dt, sc')
             \<and> (\<forall>s \<in> set (shapes example_scene ''M_body_mesh'').
                   history sc' s = chain_of ''M_body_mesh'' (map fst example_stack))"
    by (simp_all add: example_first_run_def)
  from r obtain dt sc' where e: "example_first_run = (Inr dt, sc')"
    and h: "\<forall>s \<in> set (shapes example_scene ''M_body_mesh'').
              history sc' s = chain_of ''M_body_mesh'' (map fst example_stack)"
    by blast
  from h sh have "history sc' ''M_body_meshShape'' = chain_of ''M_body_mesh'' (map fst example_stack)"
    by blast
  then have "history (snd example_first_run) ''M_body_meshShape'' =
       [''M_body_cluster'', ''M_body_ffd'', ''M_body_mesh_skinCluster'']"
    by (simp add: e ch)
  then show ?thesis
    using h0 ex c by (simp add: nr pr)
qed

end
